theory Spec2Isabelle
  imports Complex_Main "HOL-Library.AList"
begin

section \<open>Efficient split learning trainer: shallow embedding\<close>

text \<open>
  The development follows \<^verbatim>\<open>utils/random_clients_generator.py\<close> and the class
  \<^verbatim>\<open>ICTrainer\<close> of \<^verbatim>\<open>ImageClassification_Task/ic_trainer_running.py\<close>.
  Python exceptions are values of the type \<open>error\<close>; a function that may raise returns
  \<open>error + 'a\<close> with \<open>Inl\<close> for the exception. Python dictionaries, which keep insertion
  order, are association lists with distinct keys. Floating point scores are idealised as
  real numbers.
\<close>

subsection \<open>Exceptions\<close>

datatype error =
    ValueError
  | ZeroDivisionError
  | KeyError
  | IndexError
  | AttributeError
  | FileNotFoundError
  | OSError
  | RuntimeError
  | ShapeMismatch
  | EmptyInput

type_synonym cid = string

subsection \<open>\<^verbatim>\<open>utils/random_clients_generator.py\<close>\<close>

text \<open>
  The pseudo random generator is a stream of draws \<open>g :: nat \<Rightarrow> nat\<close> read at a cursor.
  \<^verbatim>\<open>random.sample(population, k)\<close> chooses \<open>k\<close> positions of the population without
  replacement: each draw selects one of the remaining elements, which is then removed.
  Every result of \<^verbatim>\<open>random.sample\<close> arises from some stream, and every stream gives a
  result that \<^verbatim>\<open>random.sample\<close> may return. It raises \<^verbatim>\<open>ValueError\<close> when the sample
  is larger than the population.
\<close>

type_synonym rng = "nat \<Rightarrow> nat"

fun sample_from :: "'a list \<Rightarrow> nat \<Rightarrow> rng \<Rightarrow> nat \<Rightarrow> 'a list" where
  "sample_from pool 0 g c = []"
| "sample_from pool (Suc k) g c =
     (let j = g c mod length pool
      in pool ! j # sample_from (take j pool @ drop (Suc j) pool) k g (Suc c))"

definition random_sample :: "'a list \<Rightarrow> nat \<Rightarrow> rng \<Rightarrow> nat \<Rightarrow> error + ('a list \<times> nat)" where
  "random_sample population k g c =
     (if length population < k then Inl ValueError
      else Inr (sample_from population k g c, c + k))"

definition alphabet :: string where
  "alphabet = ''abcdefghijklmnopqrstuvwxyz1234567890''"

text \<open>The loop \<^verbatim>\<open>for _ in range(num_clients): client_ids.append(''.join(random.sample(..., id_len)))\<close>.\<close>

fun generate_ids_loop ::
  "nat \<Rightarrow> nat \<Rightarrow> rng \<Rightarrow> nat \<Rightarrow> string list \<Rightarrow> error + (string list \<times> nat)" where
  "generate_ids_loop 0 id_len g c client_ids = Inr (client_ids, c)"
| "generate_ids_loop (Suc n) id_len g c client_ids =
     (case random_sample alphabet id_len g c of
        Inl e \<Rightarrow> Inl e
      | Inr (s, c') \<Rightarrow> generate_ids_loop n id_len g c' (client_ids @ [s]))"

definition generate_random_client_ids ::
  "nat \<Rightarrow> nat \<Rightarrow> rng \<Rightarrow> nat \<Rightarrow> error + (string list \<times> nat)" where
  "generate_random_client_ids num_clients id_len g c =
     generate_ids_loop num_clients id_len g c []"

text \<open>
  \<^verbatim>\<open>generate_random_clients(num_clients, Client)\<close> calls the generator with the default
  \<^verbatim>\<open>id_len=4\<close> and stores \<^verbatim>\<open>clients[id] = Client(id)\<close> for every id in turn. The
  constructor \<open>Client\<close> is a parameter. Assigning to a key that is present replaces the
  value in place, which is \<open>AList.update\<close>.
\<close>

definition generate_random_clients ::
  "nat \<Rightarrow> (cid \<Rightarrow> 'c) \<Rightarrow> rng \<Rightarrow> nat \<Rightarrow> error + ((cid \<times> 'c) list \<times> nat)" where
  "generate_random_clients num_clients Client g c =
     (case generate_random_client_ids num_clients 4 g c of
        Inl e \<Rightarrow> Inl e
      | Inr (client_ids, c') \<Rightarrow>
          Inr (fold (\<lambda>i clients. AList.update i (Client i) clients) client_ids [], c'))"

subsection \<open>The state of \<^verbatim>\<open>ICTrainer\<close>\<close>

text \<open>
  The classes \<^verbatim>\<open>Client\<close> (\<^verbatim>\<open>ic_client.py\<close>) and \<^verbatim>\<open>ConnectedClient\<close>
  (\<^verbatim>\<open>ic_server.py\<close>), the segment models and \<^verbatim>\<open>utils.merge.merge_weights\<close> are
  collaborators of the trainer. The records below hold the attributes of those objects that
  the trainer reads or writes. A parameter state (\<^verbatim>\<open>state_dict\<close>) is a value of the type
  variable \<open>'p\<close>; a model attribute that was never initialised (the \<^verbatim>\<open>continue\<close> branches of
  the initialisers) is \<open>None\<close>, and using it raises \<^verbatim>\<open>AttributeError\<close>.
\<close>

datatype segment = Front | Center_front | Center_back | Back

datatype mode = Train | Test

record 'p client =
  front_model :: "'p option"
  back_model :: "'p option"
  train_dataset_len :: nat
  main_test_dataset_len :: nat
  train_DataLoader_len :: nat
  test_DataLoader_len :: nat
  num_iterations :: nat
  num_test_iterations :: nat
  kv_flag :: bool
  kv_test_flag :: bool
  train_f1 :: "real list"
  test_f1 :: "real list"
  train_loss :: real
  test_loss :: real

record 'p sc_client =
  center_front_model :: "'p option"
  center_back_model :: "'p option"
  center_back_frozen :: bool
  sc_kv_flag :: bool
  sc_kv_test_flag :: bool

record args =
  epochs :: int
  kv_refresh_rate :: int
  kv_factor :: int
  args_personalize :: bool
  p_epoch :: int

text \<open>
  The trace \<open>calls\<close> records, in order, the entry of each phase of the trainer, the calls it
  makes on its collaborators, and the messages of its exception handlers. The calls that run
  a frozen segment carry the key-value flag of the receiver at the time of the call. Of the
  collaborators' methods, the optimizer steps, \<^verbatim>\<open>load_state_dict\<close> and \<^verbatim>\<open>freeze\<close> change
  what the records hold of a model; the forward passes, the loss and the scores leave every
  parameter state as it is, as their interface describes, and are taken to return normally.
\<close>

datatype call =
    Populate_key_value_store
  | Train_one_epoch nat
  | Test_one_epoch nat
  | Merge_model_weights nat
  | Load_best_models
  | Personalize nat
  | Inference
  | Forward_front_key_value cid bool
  | Forward_center_front cid bool
  | Forward_front_key_value_test cid bool
  | Forward_center_front_test cid bool
  | Forward_center_back cid
  | Forward_back cid
  | Calculate_loss cid mode
  | Loss_backward cid
  | Backward_center cid
  | Step_back cid
  | Zero_grad_back cid
  | Center_optimizer_step cid
  | Center_optimizer_zero_grad cid
  | Calculate_train_metric cid
  | Calculate_test_metric cid
  | Get_main_metric cid mode
  | Freeze cid nat
  | Merge_weights segment
  | Load_state_dict segment cid
  | Error_collecting segment cid error
  | Error_merging segment error

record 'p trainer =
  args :: args
  clients :: "(cid \<times> 'p client) list"
  sc_clients :: "(cid \<times> 'p sc_client) list"
  client_ids :: "cid list"
  num_clients :: nat
  pooling_mode :: bool
  personalization_mode :: bool
  overall_f1_train :: "real list"
  overall_f1_test :: "real list"
  save_dir :: "cid \<times> segment \<Rightarrow> 'p option"
  calls :: "call list"

text \<open>
  What the collaborators compute depends on the data and on the network architecture. It is
  a parameter of the model: \<open>merge_weights\<close> is \<^verbatim>\<open>utils.merge.merge_weights\<close>, which
  returns a fused state or raises; the scores and losses are indexed by participant, epoch
  and iteration; \<open>back_step\<close> and \<open>center_step\<close> are the effect of one optimizer step on a
  parameter state; \<open>main_test_correct\<close> is the number of correct predictions of the four
  segments on the participant's evaluation set; \<open>mkdir_ok\<close> tells whether the save
  directory can be created.
\<close>

record 'p env =
  merge_weights :: "'p list \<Rightarrow> int list \<Rightarrow> error + 'p"
  train_metric :: "cid \<Rightarrow> nat \<Rightarrow> nat \<Rightarrow> real"
  test_metric :: "cid \<Rightarrow> nat \<Rightarrow> nat \<Rightarrow> real"
  train_step_loss :: "cid \<Rightarrow> nat \<Rightarrow> nat \<Rightarrow> real"
  test_step_loss :: "cid \<Rightarrow> nat \<Rightarrow> nat \<Rightarrow> real"
  back_step :: "cid \<Rightarrow> nat \<Rightarrow> nat \<Rightarrow> 'p \<Rightarrow> 'p"
  center_step :: "cid \<Rightarrow> nat \<Rightarrow> nat \<Rightarrow> 'p \<Rightarrow> 'p"
  main_test_correct :: "cid \<Rightarrow> 'p \<Rightarrow> 'p \<Rightarrow> 'p \<Rightarrow> 'p \<Rightarrow> nat"
  mkdir_ok :: bool

subsection \<open>\<^verbatim>\<open>merge_model_weights\<close>\<close>

text \<open>
  The first loop collects \<^verbatim>\<open>copy.deepcopy(sc_client.center_back_model.state_dict())\<close> and
  \<^verbatim>\<open>len(self.clients[c_id].train_dataset) * self.args.kv_factor\<close>. Each iteration is a
  \<^verbatim>\<open>try\<close> whose handler prints and continues: a missing model appends nothing, a missing
  participant leaves the state appended without its weight.
\<close>

fun collect_center ::
  "int \<Rightarrow> (cid \<times> 'p client) list \<Rightarrow> (cid \<times> 'p sc_client) list
     \<Rightarrow> 'p list \<times> int list \<times> call list \<Rightarrow> 'p list \<times> int list \<times> call list" where
  "collect_center kv cls [] acc = acc"
| "collect_center kv cls ((c, sc) # rest) (params, sample_lens, tr) =
     (case center_back_model sc of
        None \<Rightarrow>
          collect_center kv cls rest
            (params, sample_lens, tr @ [Error_collecting Center_back c AttributeError])
      | Some sd \<Rightarrow>
          (case map_of cls c of
             None \<Rightarrow>
               collect_center kv cls rest
                 (params @ [sd], sample_lens, tr @ [Error_collecting Center_back c KeyError])
           | Some cl \<Rightarrow>
               collect_center kv cls rest
                 (params @ [sd], sample_lens @ [int (train_dataset_len cl) * kv], tr)))"

text \<open>
  The loop \<^verbatim>\<open>sc_client.center_back_model.load_state_dict(w_glob)\<close> over the server copies.
  It runs inside the \<^verbatim>\<open>try\<close> of the merge: the first missing model stops it, and the
  copies before that one keep the fused state they were given.
\<close>

fun distribute_center ::
  "'p \<Rightarrow> (cid \<times> 'p sc_client) list \<Rightarrow> (cid \<times> 'p sc_client) list \<times> call list \<times> error option" where
  "distribute_center w [] = ([], [], None)"
| "distribute_center w ((c, sc) # rest) =
     (case center_back_model sc of
        None \<Rightarrow> ((c, sc) # rest, [], Some AttributeError)
      | Some _ \<Rightarrow>
          (case distribute_center w rest of
             (rest', tr, err) \<Rightarrow>
               ((c, sc\<lparr>center_back_model := Some w\<rparr>) # rest',
                Load_state_dict Center_back c # tr, err)))"

text \<open>The same two loops for the \<^verbatim>\<open>back\<close> models, weighted by \<^verbatim>\<open>len(client.train_dataset)\<close>.\<close>

fun collect_back ::
  "(cid \<times> 'p client) list \<Rightarrow> 'p list \<times> int list \<times> call list \<Rightarrow> 'p list \<times> int list \<times> call list" where
  "collect_back [] acc = acc"
| "collect_back ((c, cl) # rest) (params, sample_lens, tr) =
     (case back_model cl of
        None \<Rightarrow>
          collect_back rest (params, sample_lens, tr @ [Error_collecting Back c AttributeError])
      | Some sd \<Rightarrow>
          collect_back rest (params @ [sd], sample_lens @ [int (train_dataset_len cl)], tr))"

fun distribute_back ::
  "'p \<Rightarrow> (cid \<times> 'p client) list \<Rightarrow> (cid \<times> 'p client) list \<times> call list \<times> error option" where
  "distribute_back w [] = ([], [], None)"
| "distribute_back w ((c, cl) # rest) =
     (case back_model cl of
        None \<Rightarrow> ((c, cl) # rest, [], Some AttributeError)
      | Some _ \<Rightarrow>
          (case distribute_back w rest of
             (rest', tr, err) \<Rightarrow>
               ((c, cl\<lparr>back_model := Some w\<rparr>) # rest', Load_state_dict Back c # tr, err)))"

text \<open>
  The first \<^verbatim>\<open>try\<close> block: merge the collected \<^verbatim>\<open>center_back\<close> states and load the
  result into every server copy; \<^verbatim>\<open>except Exception\<close> prints the error and goes on.
\<close>

definition merge_center :: "'p env \<Rightarrow> 'p trainer \<Rightarrow> 'p trainer" where
  "merge_center E T =
     (case collect_center (kv_factor (args T)) (clients T) (sc_clients T) ([], [], []) of
        (params, sample_lens, tr) \<Rightarrow>
          (case merge_weights E params sample_lens of
             Inl e \<Rightarrow>
               T\<lparr>calls := calls T @ tr @ [Merge_weights Center_back, Error_merging Center_back e]\<rparr>
           | Inr w_glob \<Rightarrow>
               (case distribute_center w_glob (sc_clients T) of
                  (scs, tr', err) \<Rightarrow>
                    T\<lparr>sc_clients := scs,
                      calls := calls T @ tr @ [Merge_weights Center_back] @ tr'
                        @ (case err of None \<Rightarrow> [] | Some e \<Rightarrow> [Error_merging Center_back e])\<rparr>)))"

text \<open>The second block, which the source guards by \<^verbatim>\<open>if not self.personalization_mode\<close>.\<close>

definition merge_back :: "'p env \<Rightarrow> 'p trainer \<Rightarrow> 'p trainer" where
  "merge_back E T =
     (case collect_back (clients T) ([], [], []) of
        (params, sample_lens, tr) \<Rightarrow>
          (case merge_weights E params sample_lens of
             Inl e \<Rightarrow>
               T\<lparr>calls := calls T @ tr @ [Merge_weights Back, Error_merging Back e]\<rparr>
           | Inr w_glob_cb \<Rightarrow>
               (case distribute_back w_glob_cb (clients T) of
                  (cls, tr', err) \<Rightarrow>
                    T\<lparr>clients := cls,
                      calls := calls T @ tr @ [Merge_weights Back] @ tr'
                        @ (case err of None \<Rightarrow> [] | Some e \<Rightarrow> [Error_merging Back e])\<rparr>)))"

definition merge_model_weights :: "'p env \<Rightarrow> nat \<Rightarrow> 'p trainer \<Rightarrow> 'p trainer" where
  "merge_model_weights E epoch T =
     (let T1 = merge_center E (T\<lparr>calls := calls T @ [Merge_model_weights epoch]\<rparr>)
      in if \<not> personalization_mode T1 then merge_back E T1 else T1)"

text \<open>The states and weights that the two collecting loops hand to \<^verbatim>\<open>merge_weights\<close>.\<close>

definition center_pool :: "'p trainer \<Rightarrow> 'p list \<times> int list" where
  "center_pool T =
     (case collect_center (kv_factor (args T)) (clients T) (sc_clients T) ([], [], []) of
        (params, sample_lens, tr) \<Rightarrow> (params, sample_lens))"

definition back_pool :: "'p trainer \<Rightarrow> 'p list \<times> int list" where
  "back_pool T =
     (case collect_back (clients T) ([], [], []) of
        (params, sample_lens, tr) \<Rightarrow> (params, sample_lens))"

subsection \<open>\<^verbatim>\<open>store_forward_mappings_kv\<close> and \<^verbatim>\<open>populate_key_value_store\<close>\<close>

text \<open>
  The first loop of the \<^verbatim>\<open>train\<close> branch sets \<^verbatim>\<open>kv_flag\<close> on the participant and on its
  server copy and reads \<^verbatim>\<open>num_iterations = len(client.train_DataLoader)\<close>. A participant
  without server copy raises \<^verbatim>\<open>KeyError\<close>.
\<close>

fun set_train_flags ::
  "(cid \<times> 'p client) list \<Rightarrow> (cid \<times> 'p sc_client) list
     \<Rightarrow> error + ((cid \<times> 'p client) list \<times> (cid \<times> 'p sc_client) list)" where
  "set_train_flags [] scs = Inr ([], scs)"
| "set_train_flags ((c, cl) # rest) scs =
     (case map_of scs c of
        None \<Rightarrow> Inl KeyError
      | Some sc \<Rightarrow>
          (case set_train_flags rest (AList.update c (sc\<lparr>sc_kv_flag := True\<rparr>) scs) of
             Inl e \<Rightarrow> Inl e
           | Inr (rest', scs') \<Rightarrow>
               Inr ((c, cl\<lparr>kv_flag := True, num_iterations := train_DataLoader_len cl\<rparr>) # rest',
                    scs')))"

text \<open>
  The second loop runs, for every participant,
  \<^verbatim>\<open>range(client.num_iterations * self.args.kv_factor)\<close> iterations of
  \<^verbatim>\<open>client.forward_front_key_value()\<close> and \<^verbatim>\<open>sc_client.forward_center_front()\<close>, and then
  clears both flags.
\<close>

fun kv_train_pass ::
  "int \<Rightarrow> (cid \<times> 'p client) list \<Rightarrow> (cid \<times> 'p sc_client) list
     \<Rightarrow> error + ((cid \<times> 'p client) list \<times> (cid \<times> 'p sc_client) list \<times> call list)" where
  "kv_train_pass kv [] scs = Inr ([], scs, [])"
| "kv_train_pass kv ((c, cl) # rest) scs =
     (case map_of scs c of
        None \<Rightarrow> Inl KeyError
      | Some sc \<Rightarrow>
          (case kv_train_pass kv rest (AList.update c (sc\<lparr>sc_kv_flag := False\<rparr>) scs) of
             Inl e \<Rightarrow> Inl e
           | Inr (rest', scs', tr) \<Rightarrow>
               Inr ((c, cl\<lparr>kv_flag := False\<rparr>) # rest', scs',
                    concat (replicate (nat (int (num_iterations cl) * kv))
                      [Forward_front_key_value c (kv_flag cl),
                       Forward_center_front c (sc_kv_flag sc)]) @ tr)))"

text \<open>The \<^verbatim>\<open>else\<close> branch: the same for the test loader, over \<^verbatim>\<open>range(client.num_test_iterations)\<close>.\<close>

fun set_test_flags ::
  "(cid \<times> 'p client) list \<Rightarrow> (cid \<times> 'p sc_client) list
     \<Rightarrow> error + ((cid \<times> 'p client) list \<times> (cid \<times> 'p sc_client) list)" where
  "set_test_flags [] scs = Inr ([], scs)"
| "set_test_flags ((c, cl) # rest) scs =
     (case map_of scs c of
        None \<Rightarrow> Inl KeyError
      | Some sc \<Rightarrow>
          (case set_test_flags rest (AList.update c (sc\<lparr>sc_kv_test_flag := True\<rparr>) scs) of
             Inl e \<Rightarrow> Inl e
           | Inr (rest', scs') \<Rightarrow>
               Inr ((c, cl\<lparr>kv_test_flag := True,
                            num_test_iterations := test_DataLoader_len cl\<rparr>) # rest',
                    scs')))"

fun kv_test_pass ::
  "(cid \<times> 'p client) list \<Rightarrow> (cid \<times> 'p sc_client) list
     \<Rightarrow> error + ((cid \<times> 'p client) list \<times> (cid \<times> 'p sc_client) list \<times> call list)" where
  "kv_test_pass [] scs = Inr ([], scs, [])"
| "kv_test_pass ((c, cl) # rest) scs =
     (case map_of scs c of
        None \<Rightarrow> Inl KeyError
      | Some sc \<Rightarrow>
          (case kv_test_pass rest (AList.update c (sc\<lparr>sc_kv_test_flag := False\<rparr>) scs) of
             Inl e \<Rightarrow> Inl e
           | Inr (rest', scs', tr) \<Rightarrow>
               Inr ((c, cl\<lparr>kv_test_flag := False\<rparr>) # rest', scs',
                    concat (replicate (num_test_iterations cl)
                      [Forward_front_key_value_test c (kv_test_flag cl),
                       Forward_center_front_test c (sc_kv_test_flag sc)]) @ tr)))"

definition store_forward_mappings_kv :: "mode \<Rightarrow> 'p trainer \<Rightarrow> error + 'p trainer" where
  "store_forward_mappings_kv m T =
     (case m of
        Train \<Rightarrow>
          (case set_train_flags (clients T) (sc_clients T) of
             Inl e \<Rightarrow> Inl e
           | Inr (cls, scs) \<Rightarrow>
               (case kv_train_pass (kv_factor (args T)) cls scs of
                  Inl e \<Rightarrow> Inl e
                | Inr (cls', scs', tr) \<Rightarrow>
                    Inr (T\<lparr>clients := cls', sc_clients := scs', calls := calls T @ tr\<rparr>)))
      | Test \<Rightarrow>
          (case set_test_flags (clients T) (sc_clients T) of
             Inl e \<Rightarrow> Inl e
           | Inr (cls, scs) \<Rightarrow>
               (case kv_test_pass cls scs of
                  Inl e \<Rightarrow> Inl e
                | Inr (cls', scs', tr) \<Rightarrow>
                    Inr (T\<lparr>clients := cls', sc_clients := scs', calls := calls T @ tr\<rparr>))))"

definition populate_key_value_store :: "'p trainer \<Rightarrow> error + 'p trainer" where
  "populate_key_value_store T =
     (case store_forward_mappings_kv Train (T\<lparr>calls := calls T @ [Populate_key_value_store]\<rparr>) of
        Inl e \<Rightarrow> Inl e
      | Inr T1 \<Rightarrow> store_forward_mappings_kv Test T1)"

subsection \<open>\<^verbatim>\<open>train_one_epoch\<close>\<close>

text \<open>\<^verbatim>\<open>create_iters\<close> appends \<^verbatim>\<open>0\<close> to the score list of every participant.\<close>

definition create_iters :: "mode \<Rightarrow> (cid \<times> 'p client) list \<Rightarrow> (cid \<times> 'p client) list" where
  "create_iters dl cls =
     (case dl of
        Train \<Rightarrow> map (\<lambda>(c, cl). (c, cl\<lparr>train_f1 := train_f1 cl @ [0]\<rparr>)) cls
      | Test \<Rightarrow> map (\<lambda>(c, cl). (c, cl\<lparr>test_f1 := test_f1 cl @ [0]\<rparr>)) cls)"

text \<open>
  \<^verbatim>\<open>xs[-1] += v\<close> on a Python list: \<^verbatim>\<open>IndexError\<close> on the empty list.
\<close>

definition add_to_last :: "real \<Rightarrow> real list \<Rightarrow> error + real list" where
  "add_to_last v xs = (if xs = [] then Inl IndexError else Inr (butlast xs @ [last xs + v]))"

text \<open>
  The calls of one training iteration, in the order of the source. The optimizer of
  \<^verbatim>\<open>center_back\<close> is stepped and cleared in every iteration; the source has no test of
  the personalization mode or of a freeze flag here.
\<close>

definition train_iteration_calls :: "cid \<Rightarrow> bool \<Rightarrow> bool \<Rightarrow> call list" where
  "train_iteration_calls c kv sc_kv =
     [Forward_front_key_value c kv, Forward_center_front c sc_kv, Forward_center_back c,
      Forward_back c, Calculate_loss c Train, Loss_backward c, Backward_center c,
      Step_back c, Zero_grad_back c, Center_optimizer_step c, Center_optimizer_zero_grad c,
      Calculate_train_metric c]"

text \<open>
  The inner loop \<^verbatim>\<open>for iteration in range(client.num_iterations)\<close> on one participant and
  its server copy. \<^verbatim>\<open>calculate_loss\<close> adds the loss of the step to \<^verbatim>\<open>train_loss\<close>, and
  the score of the step is added to \<^verbatim>\<open>client.train_f1[-1]\<close>.
\<close>

fun train_iterations ::
  "'p env \<Rightarrow> nat \<Rightarrow> cid \<Rightarrow> nat list \<Rightarrow> 'p client \<times> 'p sc_client \<times> call list
     \<Rightarrow> error + ('p client \<times> 'p sc_client \<times> call list)" where
  "train_iterations E epoch c [] s = Inr s"
| "train_iterations E epoch c (it # its) (cl, sc, tr) =
     (case add_to_last (train_metric E c epoch it) (train_f1 cl) of
        Inl e \<Rightarrow> Inl e
      | Inr f1s \<Rightarrow>
          train_iterations E epoch c its
            (cl\<lparr>back_model := map_option (back_step E c epoch it) (back_model cl),
                train_loss := train_loss cl + train_step_loss E c epoch it,
                train_f1 := f1s\<rparr>,
             sc\<lparr>center_back_model := map_option (center_step E c epoch it) (center_back_model sc)\<rparr>,
             tr @ train_iteration_calls c (kv_flag cl) (sc_kv_flag sc)))"

text \<open>
  The loop over the participants; \<^verbatim>\<open>self.sc_clients[client_id]\<close> is read inside the inner
  loop, so a participant with no iteration needs no server copy.
\<close>

fun train_clients ::
  "'p env \<Rightarrow> nat \<Rightarrow> (cid \<times> 'p client) list \<Rightarrow> (cid \<times> 'p sc_client) list
     \<Rightarrow> error + ((cid \<times> 'p client) list \<times> (cid \<times> 'p sc_client) list \<times> call list)" where
  "train_clients E epoch [] scs = Inr ([], scs, [])"
| "train_clients E epoch ((c, cl) # rest) scs =
     (if num_iterations cl = 0 then
        (case train_clients E epoch rest scs of
           Inl e \<Rightarrow> Inl e
         | Inr (rest', scs', tr') \<Rightarrow> Inr ((c, cl) # rest', scs', tr'))
      else
        (case map_of scs c of
           None \<Rightarrow> Inl KeyError
         | Some sc \<Rightarrow>
             (case train_iterations E epoch c [0..<num_iterations cl] (cl, sc, []) of
                Inl e \<Rightarrow> Inl e
              | Inr (cl', sc', tr) \<Rightarrow>
                  (case train_clients E epoch rest (AList.update c sc' scs) of
                     Inl e \<Rightarrow> Inl e
                   | Inr (rest', scs', tr') \<Rightarrow> Inr ((c, cl') # rest', scs', tr @ tr')))))"

text \<open>
  The loop that finalises the epoch: \<^verbatim>\<open>client.train_f1[-1] /= client.num_iterations\<close>,
  the same for the loss, and \<^verbatim>\<open>self.overall_f1['train'][-1] += client.train_f1[-1]\<close>. With no
  iteration the score is still the integer \<^verbatim>\<open>0\<close> that \<^verbatim>\<open>create_iters\<close> appended, and
  dividing it by \<^verbatim>\<open>0\<close> raises \<^verbatim>\<open>ZeroDivisionError\<close>. The second argument is the running
  value of \<^verbatim>\<open>self.overall_f1['train'][-1]\<close>.
\<close>

fun train_epoch_metrics ::
  "(cid \<times> 'p client) list \<Rightarrow> real \<Rightarrow> error + ((cid \<times> 'p client) list \<times> real \<times> call list)" where
  "train_epoch_metrics [] overall = Inr ([], overall, [])"
| "train_epoch_metrics ((c, cl) # rest) overall =
     (if train_f1 cl = [] then Inl IndexError
      else if num_iterations cl = 0 then Inl ZeroDivisionError
      else
        (let f1 = last (train_f1 cl) / real (num_iterations cl) in
         case train_epoch_metrics rest (overall + f1) of
           Inl e \<Rightarrow> Inl e
         | Inr (rest', overall', tr) \<Rightarrow>
             Inr ((c, cl\<lparr>train_f1 := butlast (train_f1 cl) @ [f1], train_loss := 0\<rparr>) # rest',
                  overall', Get_main_metric c Train # tr)))"

text \<open>
  \<^verbatim>\<open>self.overall_f1['train'][-1] /= self.num_clients\<close> closes the epoch. The constructor
  sets \<^verbatim>\<open>num_clients\<close> to \<^verbatim>\<open>0\<close> only together with an empty participant mapping, where
  the sum is the integer \<^verbatim>\<open>0\<close> and the division raises. The weights are merged unless the
  trainer runs in pooling mode.
\<close>

definition train_one_epoch :: "'p env \<Rightarrow> nat \<Rightarrow> 'p trainer \<Rightarrow> error + 'p trainer" where
  "train_one_epoch E epoch T =
     (case train_clients E epoch (create_iters Train (clients T)) (sc_clients T) of
        Inl e \<Rightarrow> Inl e
      | Inr (cls, scs, tr) \<Rightarrow>
          (case train_epoch_metrics cls 0 of
             Inl e \<Rightarrow> Inl e
           | Inr (cls', overall, tr') \<Rightarrow>
               if num_clients T = 0 then Inl ZeroDivisionError
               else
                 (let T1 = T\<lparr>clients := cls', sc_clients := scs,
                            overall_f1_train :=
                              overall_f1_train T @ [overall / real (num_clients T)],
                            calls := calls T @ [Train_one_epoch epoch] @ tr @ tr'\<rparr>
                  in Inr (if \<not> pooling_mode T1 then merge_model_weights E epoch T1 else T1))))"

subsection \<open>\<^verbatim>\<open>test_one_epoch\<close>\<close>

definition test_iteration_calls :: "cid \<Rightarrow> bool \<Rightarrow> bool \<Rightarrow> call list" where
  "test_iteration_calls c kv sc_kv =
     [Forward_front_key_value_test c kv, Forward_center_front_test c sc_kv,
      Forward_center_back c, Forward_back c, Calculate_loss c Test, Calculate_test_metric c]"

fun test_iterations ::
  "'p env \<Rightarrow> nat \<Rightarrow> cid \<Rightarrow> 'p sc_client \<Rightarrow> nat list \<Rightarrow> 'p client \<times> call list
     \<Rightarrow> error + ('p client \<times> call list)" where
  "test_iterations E epoch c sc [] s = Inr s"
| "test_iterations E epoch c sc (it # its) (cl, tr) =
     (case add_to_last (test_metric E c epoch it) (test_f1 cl) of
        Inl e \<Rightarrow> Inl e
      | Inr f1s \<Rightarrow>
          test_iterations E epoch c sc its
            (cl\<lparr>test_loss := test_loss cl + test_step_loss E c epoch it, test_f1 := f1s\<rparr>,
             tr @ test_iteration_calls c (kv_test_flag cl) (sc_kv_test_flag sc)))"

text \<open>
  The loop over the participants reads \<^verbatim>\<open>num_test_iterations = len(client.test_DataLoader)\<close>
  and runs that many iterations. It writes neither a model nor the server copies.
\<close>

fun test_clients ::
  "'p env \<Rightarrow> nat \<Rightarrow> (cid \<times> 'p sc_client) list \<Rightarrow> (cid \<times> 'p client) list
     \<Rightarrow> error + ((cid \<times> 'p client) list \<times> call list)" where
  "test_clients E epoch scs [] = Inr ([], [])"
| "test_clients E epoch scs ((c, cl) # rest) =
     (let cl0 = cl\<lparr>num_test_iterations := test_DataLoader_len cl\<rparr> in
      if test_DataLoader_len cl = 0 then
        (case test_clients E epoch scs rest of
           Inl e \<Rightarrow> Inl e
         | Inr (rest', tr') \<Rightarrow> Inr ((c, cl0) # rest', tr'))
      else
        (case map_of scs c of
           None \<Rightarrow> Inl KeyError
         | Some sc \<Rightarrow>
             (case test_iterations E epoch c sc [0..<test_DataLoader_len cl] (cl0, []) of
                Inl e \<Rightarrow> Inl e
              | Inr (cl', tr) \<Rightarrow>
                  (case test_clients E epoch scs rest of
                     Inl e \<Rightarrow> Inl e
                   | Inr (rest', tr') \<Rightarrow> Inr ((c, cl') # rest', tr @ tr')))))"

fun test_epoch_metrics ::
  "(cid \<times> 'p client) list \<Rightarrow> real \<Rightarrow> error + ((cid \<times> 'p client) list \<times> real \<times> call list)" where
  "test_epoch_metrics [] overall = Inr ([], overall, [])"
| "test_epoch_metrics ((c, cl) # rest) overall =
     (if test_f1 cl = [] then Inl IndexError
      else if test_DataLoader_len cl = 0 then Inl ZeroDivisionError
      else
        (let f1 = last (test_f1 cl) / real (test_DataLoader_len cl) in
         case test_epoch_metrics rest (overall + f1) of
           Inl e \<Rightarrow> Inl e
         | Inr (rest', overall', tr) \<Rightarrow>
             Inr ((c, cl\<lparr>test_f1 := butlast (test_f1 cl) @ [f1], test_loss := 0\<rparr>) # rest',
                  overall', Get_main_metric c Test # tr)))"

definition test_one_epoch :: "'p env \<Rightarrow> nat \<Rightarrow> 'p trainer \<Rightarrow> error + 'p trainer" where
  "test_one_epoch E epoch T =
     (case test_clients E epoch (sc_clients T) (create_iters Test (clients T)) of
        Inl e \<Rightarrow> Inl e
      | Inr (cls, tr) \<Rightarrow>
          (case test_epoch_metrics cls 0 of
             Inl e \<Rightarrow> Inl e
           | Inr (cls', overall, tr') \<Rightarrow>
               if num_clients T = 0 then Inl ZeroDivisionError
               else
                 Inr (T\<lparr>clients := cls',
                        overall_f1_test := overall_f1_test T @ [overall / real (num_clients T)],
                        calls := calls T @ [Test_one_epoch epoch] @ tr @ tr'\<rparr>)))"

subsection \<open>\<^verbatim>\<open>load_best_models\<close> and \<^verbatim>\<open>personalize\<close>\<close>

text \<open>
  \<open>save_dir T (c, seg)\<close> is the content of the file \<^verbatim>\<open>client_{c}_{model}_{seg}.pth\<close> in
  the save directory, \<open>None\<close> when there is no such file (\<^verbatim>\<open>torch.load\<close> raises). For each
  id the four files are read into fresh model objects, which then replace the models of the
  participant and of its server copy. A fresh \<^verbatim>\<open>center_back\<close> is not frozen.
\<close>

fun load_models ::
  "(cid \<times> segment \<Rightarrow> 'p option) \<Rightarrow> cid list \<Rightarrow> (cid \<times> 'p client) list
     \<Rightarrow> (cid \<times> 'p sc_client) list
     \<Rightarrow> error + ((cid \<times> 'p client) list \<times> (cid \<times> 'p sc_client) list)" where
  "load_models dir [] cls scs = Inr (cls, scs)"
| "load_models dir (c # ids) cls scs =
     (case (dir (c, Front), dir (c, Center_front), dir (c, Center_back), dir (c, Back)) of
        (Some front_sd, Some center_front_sd, Some center_back_sd, Some back_sd) \<Rightarrow>
          (case (map_of cls c, map_of scs c) of
             (Some cl, Some sc) \<Rightarrow>
               load_models dir ids
                 (AList.update c (cl\<lparr>front_model := Some front_sd, back_model := Some back_sd\<rparr>) cls)
                 (AList.update c
                    (sc\<lparr>center_front_model := Some center_front_sd,
                        center_back_model := Some center_back_sd,
                        center_back_frozen := False\<rparr>) scs)
           | _ \<Rightarrow> Inl KeyError)
      | _ \<Rightarrow> Inl FileNotFoundError)"

definition load_best_models :: "'p trainer \<Rightarrow> error + 'p trainer" where
  "load_best_models T =
     (case load_models (save_dir T) (client_ids T) (clients T) (sc_clients T) of
        Inl e \<Rightarrow> Inl e
      | Inr (cls, scs) \<Rightarrow>
          Inr (T\<lparr>clients := cls, sc_clients := scs, calls := calls T @ [Load_best_models]\<rparr>))"

text \<open>
  \<^verbatim>\<open>personalize\<close> calls \<^verbatim>\<open>sc_client.center_back_model.freeze(epoch, ...)\<close> on every
  server copy.
\<close>

fun freeze_all ::
  "nat \<Rightarrow> (cid \<times> 'p sc_client) list \<Rightarrow> error + ((cid \<times> 'p sc_client) list \<times> call list)" where
  "freeze_all epoch [] = Inr ([], [])"
| "freeze_all epoch ((c, sc) # rest) =
     (case center_back_model sc of
        None \<Rightarrow> Inl AttributeError
      | Some _ \<Rightarrow>
          (case freeze_all epoch rest of
             Inl e \<Rightarrow> Inl e
           | Inr (rest', tr) \<Rightarrow>
               Inr ((c, sc\<lparr>center_back_frozen := True\<rparr>) # rest', Freeze c epoch # tr)))"

definition personalize :: "nat \<Rightarrow> 'p trainer \<Rightarrow> error + 'p trainer" where
  "personalize epoch T =
     (case freeze_all epoch (sc_clients T) of
        Inl e \<Rightarrow> Inl e
      | Inr (scs, tr) \<Rightarrow>
          Inr (T\<lparr>sc_clients := scs, calls := calls T @ [Personalize epoch] @ tr\<rparr>))"

subsection \<open>\<^verbatim>\<open>inference\<close>\<close>

text \<open>
  For every id the four segments are run on the evaluation set, \<^verbatim>\<open>front\<close>,
  \<^verbatim>\<open>center_front\<close>, \<^verbatim>\<open>center_back\<close> and \<^verbatim>\<open>back\<close> in this order; the accuracy is
  \<^verbatim>\<open>correct / total\<close>. An evaluation set without a sample gives no batch, and
  \<^verbatim>\<open>torch.cat\<close> of the empty list raises. The function returns the number it prints,
  \<^verbatim>\<open>avg_acc/10\<close>.
\<close>

definition accuracy :: "'p env \<Rightarrow> 'p trainer \<Rightarrow> cid \<Rightarrow> error + real" where
  "accuracy E T c =
     (case map_of (clients T) c of
        None \<Rightarrow> Inl KeyError
      | Some cl \<Rightarrow>
          if main_test_dataset_len cl = 0 then Inl RuntimeError
          else
            (case front_model cl of
               None \<Rightarrow> Inl AttributeError
             | Some front \<Rightarrow>
            (case map_of (sc_clients T) c of
               None \<Rightarrow> Inl KeyError
             | Some sc \<Rightarrow>
            (case center_front_model sc of
               None \<Rightarrow> Inl AttributeError
             | Some center_front \<Rightarrow>
            (case center_back_model sc of
               None \<Rightarrow> Inl AttributeError
             | Some center_back \<Rightarrow>
            (case back_model cl of
               None \<Rightarrow> Inl AttributeError
             | Some back \<Rightarrow>
                 Inr (real (main_test_correct E c front center_front center_back back)
                      / real (main_test_dataset_len cl))))))))"

fun inference_loop :: "'p env \<Rightarrow> 'p trainer \<Rightarrow> cid list \<Rightarrow> real \<Rightarrow> error + real" where
  "inference_loop E T [] avg_acc = Inr avg_acc"
| "inference_loop E T (c # ids) avg_acc =
     (case accuracy E T c of
        Inl e \<Rightarrow> Inl e
      | Inr a \<Rightarrow> inference_loop E T ids (avg_acc + a))"

definition inference :: "'p env \<Rightarrow> 'p trainer \<Rightarrow> error + real" where
  "inference E T =
     (case inference_loop E T (client_ids T) 0 of
        Inl e \<Rightarrow> Inl e
      | Inr avg_acc \<Rightarrow> Inr (avg_acc / 10))"

subsection \<open>\<^verbatim>\<open>fit\<close>\<close>

text \<open>
  \<^verbatim>\<open>back_model.train()\<close> and \<^verbatim>\<open>center_back_model.train()\<close> (or \<^verbatim>\<open>eval()\<close>) for every
  id: the calls need the participant, its server copy and both models.
\<close>

fun set_model_modes :: "'p trainer \<Rightarrow> cid list \<Rightarrow> error option" where
  "set_model_modes T [] = None"
| "set_model_modes T (c # ids) =
     (case map_of (clients T) c of
        None \<Rightarrow> Some KeyError
      | Some cl \<Rightarrow>
          if back_model cl = None then Some AttributeError
          else
            (case map_of (sc_clients T) c of
               None \<Rightarrow> Some KeyError
             | Some sc \<Rightarrow>
                 if center_back_model sc = None then Some AttributeError
                 else set_model_modes T ids))"

definition refresh :: "nat \<Rightarrow> 'p trainer \<Rightarrow> error + 'p trainer" where
  "refresh epoch T =
     (if kv_refresh_rate (args T) \<noteq> 0 \<and> int epoch mod kv_refresh_rate (args T) = 0
      then populate_key_value_store T else Inr T)"

definition enter_personalization :: "nat \<Rightarrow> 'p trainer \<Rightarrow> error + 'p trainer" where
  "enter_personalization epoch T =
     (if args_personalize (args T) \<and> int epoch = p_epoch (args T) then
        (case load_best_models (T\<lparr>personalization_mode := True\<rparr>) of
           Inl e \<Rightarrow> Inl e
         | Inr T1 \<Rightarrow> personalize epoch T1)
      else Inr T)"

text \<open>The body of \<^verbatim>\<open>for epoch in range(self.args.epochs)\<close>.\<close>

definition fit_epoch :: "'p env \<Rightarrow> nat \<Rightarrow> 'p trainer \<Rightarrow> error + 'p trainer" where
  "fit_epoch E epoch T =
     (case refresh epoch T of
        Inl e \<Rightarrow> Inl e
      | Inr T1 \<Rightarrow>
     (case enter_personalization epoch T1 of
        Inl e \<Rightarrow> Inl e
      | Inr T2 \<Rightarrow>
     (case set_model_modes T2 (client_ids T2) of
        Some e \<Rightarrow> Inl e
      | None \<Rightarrow>
     (case train_one_epoch E epoch T2 of
        Inl e \<Rightarrow> Inl e
      | Inr T3 \<Rightarrow>
     (case set_model_modes T3 (client_ids T3) of
        Some e \<Rightarrow> Inl e
      | None \<Rightarrow>
     (case test_one_epoch E epoch T3 of
        Inl e \<Rightarrow> Inl e
      | Inr T4 \<Rightarrow>
     (case inference E T4 of
        Inl e \<Rightarrow> Inl e
      | Inr _ \<Rightarrow> Inr (T4\<lparr>calls := calls T4 @ [Inference]\<rparr>))))))))"

fun fit_loop :: "'p env \<Rightarrow> nat list \<Rightarrow> 'p trainer \<Rightarrow> error + 'p trainer" where
  "fit_loop E [] T = Inr T"
| "fit_loop E (epoch # es) T =
     (case fit_epoch E epoch T of
        Inl e \<Rightarrow> Inl e
      | Inr T' \<Rightarrow> fit_loop E es T')"

text \<open>
  \<^verbatim>\<open>fit\<close>: the save directory is created, the store is populated once when the refresh rate
  is \<^verbatim>\<open>0\<close>, the epochs run, and the final report reads
  \<^verbatim>\<open>self.overall_f1['train'][self.max_f1['epoch']]\<close> with the index \<^verbatim>\<open>-1\<close>, which raises
  \<^verbatim>\<open>IndexError\<close> on an empty list.
\<close>

definition fit :: "'p env \<Rightarrow> 'p trainer \<Rightarrow> error + 'p trainer" where
  "fit E T =
     (if \<not> mkdir_ok E then Inl OSError
      else
        (case (if kv_refresh_rate (args T) = 0 then populate_key_value_store T else Inr T) of
           Inl e \<Rightarrow> Inl e
         | Inr T1 \<Rightarrow>
             (case fit_loop E [0..<nat (epochs (args T1))] T1 of
                Inl e \<Rightarrow> Inl e
              | Inr T2 \<Rightarrow> if overall_f1_train T2 = [] then Inl IndexError else Inr T2)))"

text \<open>What one call of \<^verbatim>\<open>random.sample\<close> with \<^verbatim>\<open>id_len=4\<close> guarantees of an identifier.\<close>

definition well_formed_id :: "string \<Rightarrow> bool" where
  "well_formed_id s \<longleftrightarrow> length s = 4 \<and> distinct s \<and> set s \<subseteq> set alphabet"

subsection \<open>Closed forms of the loops\<close>

text \<open>
  The participant and the server copy after the iterations \<open>its\<close> of one training epoch,
  and the number of training iterations that an epoch runs for the id \<open>c\<close>.
\<close>

definition trained_client :: "'p env \<Rightarrow> nat \<Rightarrow> cid \<Rightarrow> nat list \<Rightarrow> 'p client \<Rightarrow> 'p client" where
  "trained_client E epoch c its cl =
     cl\<lparr>back_model := fold (\<lambda>it. map_option (back_step E c epoch it)) its (back_model cl),
        train_loss := train_loss cl + sum_list (map (train_step_loss E c epoch) its),
        train_f1 := butlast (train_f1 cl)
           @ [last (train_f1 cl) + sum_list (map (train_metric E c epoch) its)]\<rparr>"

definition trained_sc_client ::
  "'p env \<Rightarrow> nat \<Rightarrow> cid \<Rightarrow> nat list \<Rightarrow> 'p sc_client \<Rightarrow> 'p sc_client" where
  "trained_sc_client E epoch c its sc =
     sc\<lparr>center_back_model :=
          fold (\<lambda>it. map_option (center_step E c epoch it)) its (center_back_model sc)\<rparr>"

definition iterations_of :: "cid \<Rightarrow> (cid \<times> 'p client) list \<Rightarrow> nat" where
  "iterations_of c cls = sum_list (map (\<lambda>(c', cl). if c' = c then num_iterations cl else 0) cls)"

text \<open>
  The same for a testing epoch, and the entries that a purely evaluative pass may add to
  the trace: forward calls, the loss and the scores of the test mode.
\<close>

definition tested_client :: "'p env \<Rightarrow> nat \<Rightarrow> cid \<Rightarrow> nat list \<Rightarrow> 'p client \<Rightarrow> 'p client" where
  "tested_client E epoch c its cl =
     cl\<lparr>test_loss := test_loss cl + sum_list (map (test_step_loss E c epoch) its),
        test_f1 := butlast (test_f1 cl)
           @ [last (test_f1 cl) + sum_list (map (test_metric E c epoch) its)]\<rparr>"

definition test_iterations_of :: "cid \<Rightarrow> (cid \<times> 'p client) list \<Rightarrow> nat" where
  "test_iterations_of c cls =
     sum_list (map (\<lambda>(c', cl). if c' = c then test_DataLoader_len cl else 0) cls)"

definition evaluation_call :: "call \<Rightarrow> bool" where
  "evaluation_call x =
     (case x of
        Test_one_epoch _ \<Rightarrow> True
      | Forward_front_key_value_test _ _ \<Rightarrow> True
      | Forward_center_front_test _ _ \<Rightarrow> True
      | Forward_center_back _ \<Rightarrow> True
      | Forward_back _ \<Rightarrow> True
      | Calculate_loss _ m \<Rightarrow> m = Test
      | Calculate_test_metric _ \<Rightarrow> True
      | Get_main_metric _ m \<Rightarrow> m = Test
      | _ \<Rightarrow> False)"

text \<open>
  The entries of the trace that mark the entry of a phase of \<^verbatim>\<open>fit\<close>; the calls of
  \<^verbatim>\<open>forward_center_front\<close> and of \<^verbatim>\<open>forward_center_front_test\<close> on the server copy of
  \<open>c\<close>, one for each iteration of a population pass; and the number of iterations that
  the train pass of a population runs for \<open>c\<close>.
\<close>

definition phase_marker :: "call \<Rightarrow> bool" where
  "phase_marker x =
     (case x of
        Populate_key_value_store \<Rightarrow> True
      | Train_one_epoch _ \<Rightarrow> True
      | Test_one_epoch _ \<Rightarrow> True
      | Load_best_models \<Rightarrow> True
      | Personalize _ \<Rightarrow> True
      | Inference \<Rightarrow> True
      | _ \<Rightarrow> False)"






text \<open>The calls of \<^verbatim>\<open>freeze\<close> in the trace.\<close>

definition freeze_call :: "call \<Rightarrow> bool" where
  "freeze_call x = (case x of Freeze _ _ \<Rightarrow> True | _ \<Rightarrow> False)"

text \<open>The segment that a forward call runs.\<close>

definition segment_call :: "call \<Rightarrow> segment option" where
  "segment_call x =
     (case x of
        Forward_front_key_value _ _ \<Rightarrow> Some Front
      | Forward_front_key_value_test _ _ \<Rightarrow> Some Front
      | Forward_center_front _ _ \<Rightarrow> Some Center_front
      | Forward_center_front_test _ _ \<Rightarrow> Some Center_front
      | Forward_center_back _ \<Rightarrow> Some Center_back
      | Forward_back _ \<Rightarrow> Some Back
      | _ \<Rightarrow> None)"

text \<open>The entries that \<^verbatim>\<open>merge_model_weights\<close> adds to the trace.\<close>

definition merge_call :: "call \<Rightarrow> bool" where
  "merge_call x =
     (case x of
        Merge_model_weights _ \<Rightarrow> True
      | Merge_weights _ \<Rightarrow> True
      | Load_state_dict _ _ \<Rightarrow> True
      | Error_collecting _ _ _ \<Rightarrow> True
      | Error_merging _ _ \<Rightarrow> True
      | _ \<Rightarrow> False)"

subsection \<open>A small run\<close>

text \<open>
  Two participants with integer parameter states, one batch each, and a collaborator
  environment whose merge is the sample-count-weighted average, raising \<^verbatim>\<open>EmptyInput\<close>
  and \<^verbatim>\<open>ShapeMismatch\<close> as the fusion function is specified to do. The theorems below are
  evaluated on this run.
\<close>

definition average_weights :: "int list \<Rightarrow> int list \<Rightarrow> error + int" where
  "average_weights params sample_lens =
     (if params = [] \<or> sum_list sample_lens = 0 then Inl EmptyInput
      else if length params \<noteq> length sample_lens then Inl ShapeMismatch
      else Inr (sum_list (map2 (*) params sample_lens) div sum_list sample_lens))"

definition small_env :: "int env" where
  "small_env =
     \<lparr>merge_weights = average_weights,
      train_metric = (\<lambda>c epoch it. 1 / 2),
      test_metric = (\<lambda>c epoch it. 1 / 4),
      train_step_loss = (\<lambda>c epoch it. 1),
      test_step_loss = (\<lambda>c epoch it. 1),
      back_step = (\<lambda>c epoch it w. w + 1),
      center_step = (\<lambda>c epoch it w. w + 2),
      main_test_correct = (\<lambda>c front center_front center_back back. 0),
      mkdir_ok = True\<rparr>"

definition small_client :: "int \<Rightarrow> nat \<Rightarrow> int client" where
  "small_client w n =
     \<lparr>front_model = Some 0, back_model = Some w, train_dataset_len = n,
      main_test_dataset_len = 4, train_DataLoader_len = 1, test_DataLoader_len = 1,
      num_iterations = 1, num_test_iterations = 1, kv_flag = False, kv_test_flag = False,
      train_f1 = [], test_f1 = [], train_loss = 0, test_loss = 0\<rparr>"

definition small_sc_client :: "int \<Rightarrow> int sc_client" where
  "small_sc_client w =
     \<lparr>center_front_model = Some 0, center_back_model = Some w, center_back_frozen = False,
      sc_kv_flag = False, sc_kv_test_flag = False\<rparr>"

definition small_args :: args where
  "small_args = \<lparr>epochs = 2, kv_refresh_rate = 2, kv_factor = 2, args_personalize = False, p_epoch = 0\<rparr>"

definition small_trainer :: "bool \<Rightarrow> int trainer" where
  "small_trainer pm =
     \<lparr>args = small_args,
      clients = [(''abcd'', small_client 5 1), (''efgh'', small_client 7 3)],
      sc_clients = [(''abcd'', small_sc_client 10), (''efgh'', small_sc_client 30)],
      client_ids = [''abcd'', ''efgh''],
      num_clients = 2, pooling_mode = False, personalization_mode = pm,
      overall_f1_train = [], overall_f1_test = [],
      save_dir = (\<lambda>_. None), calls = []\<rparr>"

text \<open>The same collaborators with a merge that raises \<^verbatim>\<open>ShapeMismatch\<close> on every call.\<close>

definition failing_env :: "int env" where
  "failing_env = small_env\<lparr>merge_weights := (\<lambda>params sample_lens. Inl ShapeMismatch)\<rparr>"

text \<open>The small run in personalization mode, with the freeze flag of every server copy set.\<close>

definition frozen_trainer :: "int trainer" where
  "frozen_trainer =
     (small_trainer True)\<lparr>sc_clients :=
        map (\<lambda>(c, sc). (c, sc\<lparr>center_back_frozen := True\<rparr>)) (sc_clients (small_trainer True))\<rparr>"

text \<open>
  The small run with personalization at epoch \<open>1\<close> and a save directory that holds a
  state for every segment of every participant.
\<close>

definition saved_trainer :: "int trainer" where
  "saved_trainer =
     (small_trainer False)\<lparr>
        args := small_args\<lparr>args_personalize := True, p_epoch := 1\<rparr>,
        save_dir := (\<lambda>(c, seg). Some (case seg of Front \<Rightarrow> 1 | Center_front \<Rightarrow> 2
                                          | Center_back \<Rightarrow> 3 | Back \<Rightarrow> 4))\<rparr>"


section \<open>Participant identifiers\<close>

lemma sample_from_length:
  "k \<le> length pool \<Longrightarrow> length (sample_from pool k g c) = k"
  by (induction k arbitrary: pool c) (auto simp: Let_def)

lemma remove_nth_set:
  "j < length pool \<Longrightarrow> set (take j pool @ drop (Suc j) pool) \<subseteq> set pool"
  by (auto dest: in_set_takeD in_set_dropD)

lemma sample_from_set:
  "k \<le> length pool \<Longrightarrow> set (sample_from pool k g c) \<subseteq> set pool"
proof (induction k arbitrary: pool c)
  case 0
  then show ?case by simp
next
  case (Suc k)
  let ?j = "g c mod length pool"
  let ?rest = "take ?j pool @ drop (Suc ?j) pool"
  from Suc.prems have j: "?j < length pool" by (cases pool) simp_all
  from Suc.prems j have "k \<le> length ?rest" by simp
  then have "set (sample_from ?rest k g (Suc c)) \<subseteq> set ?rest" by (rule Suc.IH)
  also have "\<dots> \<subseteq> set pool" using j by (rule remove_nth_set)
  finally show ?case using j by (simp add: Let_def)
qed

lemma remove_nth_distinct:
  assumes "distinct pool" "j < length pool"
  shows "distinct (take j pool @ drop (Suc j) pool)"
    and "pool ! j \<notin> set (take j pool @ drop (Suc j) pool)"
proof -
  have split: "pool = take j pool @ pool ! j # drop (Suc j) pool"
    using assms(2) by (simp add: id_take_nth_drop [symmetric])
  have d: "distinct (take j pool @ pool ! j # drop (Suc j) pool)"
    using assms(1) split by simp
  from d show "distinct (take j pool @ drop (Suc j) pool)" by auto
  from d show "pool ! j \<notin> set (take j pool @ drop (Suc j) pool)" by auto
qed

lemma sample_from_distinct:
  "distinct pool \<Longrightarrow> k \<le> length pool \<Longrightarrow> distinct (sample_from pool k g c)"
proof (induction k arbitrary: pool c)
  case 0
  then show ?case by simp
next
  case (Suc k)
  let ?j = "g c mod length pool"
  let ?rest = "take ?j pool @ drop (Suc ?j) pool"
  from Suc.prems have j: "?j < length pool" by (cases pool) simp_all
  from Suc.prems j have len: "k \<le> length ?rest" by simp
  have dr: "distinct ?rest" using Suc.prems(1) j by (rule remove_nth_distinct(1))
  have notin: "pool ! ?j \<notin> set ?rest" using Suc.prems(1) j by (rule remove_nth_distinct(2))
  have "distinct (sample_from ?rest k g (Suc c))" using dr len by (rule Suc.IH)
  moreover have "set (sample_from ?rest k g (Suc c)) \<subseteq> set ?rest"
    using len by (rule sample_from_set)
  ultimately show ?case using notin by (auto simp: Let_def)
qed

lemma alphabet_length: "length alphabet = 36"
  by (simp add: alphabet_def)

lemma alphabet_distinct: "distinct alphabet"
  by (simp add: alphabet_def)

lemma random_sample_alphabet:
  "random_sample alphabet 4 g c = Inr (sample_from alphabet 4 g c, c + 4)"
  by (simp add: random_sample_def alphabet_length)

lemma sample_well_formed: "well_formed_id (sample_from alphabet 4 g c)"
  unfolding well_formed_id_def
  by (simp add: sample_from_length sample_from_distinct sample_from_set
      alphabet_length alphabet_distinct)

lemma generate_ids_loop_total:
  "\<exists>ids c'. generate_ids_loop n 4 g c acc = Inr (acc @ ids, c') \<and> length ids = n
      \<and> list_all well_formed_id ids"
proof (induction n arbitrary: c acc)
  case 0
  then show ?case by simp
next
  case (Suc n)
  let ?s = "sample_from alphabet 4 g c"
  from Suc.IH [of "c + 4" "acc @ [?s]"] obtain ids c' where
    run: "generate_ids_loop n 4 g (c + 4) (acc @ [?s]) = Inr ((acc @ [?s]) @ ids, c')"
    and len: "length ids = n" and wf: "list_all well_formed_id ids"
    by blast
  have "generate_ids_loop (Suc n) 4 g c acc = Inr (acc @ (?s # ids), c')"
    using run by (simp add: random_sample_alphabet)
  moreover have "length (?s # ids) = Suc n" using len by simp
  moreover have "list_all well_formed_id (?s # ids)" using wf sample_well_formed by simp
  ultimately show ?case by blast
qed

lemma update_key_set:
  "set (map fst (AList.update k v al)) = insert k (set (map fst al))"
  by (induction al) auto

lemma update_fold_keys:
  "set (map fst (fold (\<lambda>i clients. AList.update i (f i) clients) ids al))
     = set (map fst al) \<union> set ids"
proof (induction ids arbitrary: al)
  case Nil
  then show ?case by simp
next
  case (Cons a ids)
  have "set (map fst (fold (\<lambda>i clients. AList.update i (f i) clients) ids
          (AList.update a (f a) al)))
        = set (map fst (AList.update a (f a) al)) \<union> set ids"
    by (rule Cons.IH)
  then show ?case by (simp only: fold_simps update_key_set list.set) blast
qed

lemma update_fold_distinct:
  "distinct (map fst al) \<Longrightarrow>
     distinct (map fst (fold (\<lambda>i clients. AList.update i (f i) clients) ids al))"
  by (induction ids arbitrary: al) (auto simp: distinct_update)

lemma update_fold_length:
  "length (fold (\<lambda>i clients. AList.update i (f i) clients) ids []) = card (set ids)"
proof -
  let ?d = "fold (\<lambda>i clients. AList.update i (f i) clients) ids []"
  have "distinct (map fst ?d)" by (rule update_fold_distinct) simp
  then have "card (set (map fst ?d)) = length (map fst ?d)" by (rule distinct_card)
  moreover have "set (map fst ?d) = set ids"
    using update_fold_keys [of f ids "[]"] by simp
  ultimately show ?thesis by simp
qed

text \<open>
  C8 (as the code has it). For every stream of random draws and every requested number
  \<open>n\<close> of participants the generator returns \<open>n\<close> identifiers, each made of four
  pairwise distinct characters of the alphabet. Nothing compares one identifier with
  another: the participant mapping has the generated identifiers as its keys, so it holds
  as many entries as there are different identifiers, at most \<open>n\<close>, and exactly \<open>n\<close> if and
  only if the generated identifiers happen to be pairwise distinct.
\<close>

theorem generate_random_clients_entries:
  "\<exists>ids c' clients.
      generate_random_client_ids n 4 g c = Inr (ids, c')
    \<and> generate_random_clients n Client g c = Inr (clients, c')
    \<and> length ids = n
    \<and> list_all well_formed_id ids
    \<and> set (map fst clients) = set ids
    \<and> distinct (map fst clients)
    \<and> length clients = card (set ids)
    \<and> length clients \<le> n
    \<and> (length clients = n \<longleftrightarrow> distinct ids)"
proof -
  from generate_ids_loop_total [of n g c "[]"] obtain ids c' where
    run: "generate_random_client_ids n 4 g c = Inr (ids, c')"
    and len: "length ids = n" and wf: "list_all well_formed_id ids"
    by (auto simp: generate_random_client_ids_def)
  let ?clients = "fold (\<lambda>i clients. AList.update i (Client i) clients) ids []"
  have cl: "generate_random_clients n Client g c = Inr (?clients, c')"
    using run by (simp add: generate_random_clients_def)
  have keys: "set (map fst ?clients) = set ids"
    using update_fold_keys [of Client ids "[]"] by simp
  have dist: "distinct (map fst ?clients)" by (rule update_fold_distinct) simp
  have card: "length ?clients = card (set ids)" by (rule update_fold_length)
  have le: "length ?clients \<le> n" using card len card_length [of ids] by simp
  have iff: "length ?clients = n \<longleftrightarrow> distinct ids"
    using card len card_distinct [of ids] distinct_card [of ids] by auto
  from run cl len wf keys dist card le iff show ?thesis by blast
qed

theorem generate_random_clients_entries_witness:
  "\<exists>ids c' clients.
      generate_random_client_ids 3 4 (\<lambda>i. i) 0 = Inr (ids, c')
    \<and> generate_random_clients 3 (\<lambda>i. length i) (\<lambda>i. i) 0 = Inr (clients, c')
    \<and> length ids = 3
    \<and> list_all well_formed_id ids
    \<and> set (map fst clients) = set ids
    \<and> distinct (map fst clients)
    \<and> length clients = card (set ids)
    \<and> length clients \<le> 3
    \<and> (length clients = 3 \<longleftrightarrow> distinct ids)"
  by (rule generate_random_clients_entries)

text \<open>
  C8 (as stated) fails: a generator whose draws are all \<open>0\<close> makes \<^verbatim>\<open>random.sample\<close>
  return \<^verbatim>\<open>abcd\<close> on every call, so two requested participants receive the same
  identifier and the mapping holds one entry.
\<close>

theorem generate_random_clients_collision:
  "generate_random_client_ids 2 4 (\<lambda>_. 0) 0 = Inr ([''abcd'', ''abcd''], 8)
   \<and> \<not> distinct [''abcd'', ''abcd'']
   \<and> generate_random_clients 2 (\<lambda>i. i) (\<lambda>_. 0) 0 = Inr ([(''abcd'', ''abcd'')], 8)
   \<and> length [(''abcd'', ''abcd'')] \<noteq> (2::nat)"
  by code_simp

section \<open>The final inference pass\<close>

lemma inference_loop_sum:
  "list_all2 (\<lambda>c a. accuracy E T c = Inr a) ids accs \<Longrightarrow>
     inference_loop E T ids avg = Inr (avg + sum_list accs)"
  by (induction ids accs arbitrary: avg rule: list_all2_induct) (simp_all add: add.assoc)

text \<open>
  C9 (as the code has it). When every participant's accuracy can be computed, the final
  inference pass reports the sum of the accuracies divided by the constant \<open>10\<close>, whatever
  the number of participants. With exactly ten participants this is their mean; with
  another positive number of participants it is the mean only if the accuracies sum to zero.
\<close>

theorem inference_average:
  assumes "list_all2 (\<lambda>c a. accuracy E T c = Inr a) (client_ids T) accs"
  shows "inference E T = Inr (sum_list accs / 10)
       \<and> (length (client_ids T) = 10 \<longrightarrow>
            sum_list accs / 10 = sum_list accs / real (length (client_ids T)))
       \<and> (0 < length (client_ids T) \<and> sum_list accs \<noteq> 0
            \<and> sum_list accs / 10 = sum_list accs / real (length (client_ids T))
            \<longrightarrow> length (client_ids T) = 10)"
proof -
  have "inference E T = Inr (sum_list accs / 10)"
    using inference_loop_sum [OF assms, of 0] by (simp add: inference_def)
  moreover have "sum_list accs \<noteq> 0 \<Longrightarrow> 0 < length (client_ids T) \<Longrightarrow>
      sum_list accs / 10 = sum_list accs / real (length (client_ids T)) \<Longrightarrow>
      length (client_ids T) = 10"
    by (simp add: field_simps)
  ultimately show ?thesis by auto
qed

lemma small_trainer_ids: "client_ids (small_trainer pm) = [''abcd'', ''efgh'']"
  by (simp add: small_trainer_def)

lemma small_accuracy:
  "accuracy small_env (small_trainer pm) ''abcd'' = Inr 0"
  "accuracy small_env (small_trainer pm) ''efgh'' = Inr 0"
  by (simp_all add: accuracy_def small_env_def small_trainer_def small_client_def
      small_sc_client_def)

theorem inference_average_witness:
  "list_all2 (\<lambda>c a. accuracy small_env (small_trainer True) c = Inr a)
      (client_ids (small_trainer True)) [0, 0]
   \<and> inference small_env (small_trainer True) = Inr (sum_list [0, 0] / 10)"
proof -
  have h: "list_all2 (\<lambda>c a. accuracy small_env (small_trainer True) c = Inr a)
      (client_ids (small_trainer True)) [0, 0]"
    by (simp add: small_trainer_ids small_accuracy)
  from inference_average [OF h] h show ?thesis by blast
qed

text \<open>
  C9 (as stated) fails in its last part: two participants whose accuracies are both \<open>0\<close>
  are reported with \<open>0 / 10\<close>, which is their mean \<open>(0 + 0) / 2\<close>, although there are not
  ten participants.
\<close>

theorem inference_zero_scores:
  "list_all2 (\<lambda>c a. accuracy small_env (small_trainer True) c = Inr a)
      (client_ids (small_trainer True)) [0, 0]
   \<and> inference small_env (small_trainer True)
       = Inr (sum_list [0, 0] / real (length (client_ids (small_trainer True))))
   \<and> length (client_ids (small_trainer True)) \<noteq> 10"
  by (simp add: inference_def small_trainer_ids small_accuracy)

section \<open>Weight fusion\<close>

lemma collect_center_params:
  "fst (collect_center kv cls scs (ps, ls, tr))
     = ps @ List.map_filter (\<lambda>(c, sc). center_back_model sc) scs"
  by (induction scs arbitrary: ps ls tr)
     (auto simp: List.map_filter_simps split: option.splits)

lemma collect_back_params:
  "fst (collect_back cls (ps, ls, tr))
     = ps @ List.map_filter (\<lambda>(c, cl). back_model cl) cls"
  by (induction cls arbitrary: ps ls tr)
     (auto simp: List.map_filter_simps split: option.splits)

lemma distribute_center_all:
  "list_all (\<lambda>(c, sc). center_back_model sc \<noteq> None) scs \<Longrightarrow>
     distribute_center w scs
       = (map (\<lambda>(c, sc). (c, sc\<lparr>center_back_model := Some w\<rparr>)) scs,
          map (\<lambda>(c, sc). Load_state_dict Center_back c) scs, None)"
  by (induction scs) auto

lemma merge_center_clients: "clients (merge_center E T) = clients T"
  by (simp add: merge_center_def split: prod.splits sum.splits)

lemma merge_center_mode: "personalization_mode (merge_center E T) = personalization_mode T"
  by (simp add: merge_center_def split: prod.splits sum.splits)

lemma merge_center_success:
  assumes "merge_weights E (fst (center_pool T)) (snd (center_pool T)) = Inr w"
    and "list_all (\<lambda>(c, sc). center_back_model sc \<noteq> None) (sc_clients T)"
  shows "sc_clients (merge_center E T)
       = map (\<lambda>(c, sc). (c, sc\<lparr>center_back_model := Some w\<rparr>)) (sc_clients T)"
  using assms
  by (auto simp: merge_center_def center_pool_def distribute_center_all split: prod.splits)

lemma merge_center_failure:
  assumes "merge_weights E (fst (center_pool T)) (snd (center_pool T)) = Inl e"
  shows "sc_clients (merge_center E T) = sc_clients T"
    and "Error_merging Center_back e \<in> set (calls (merge_center E T))"
  using assms
  by (auto simp: merge_center_def center_pool_def split: prod.splits)

lemma merge_back_failure:
  assumes "merge_weights E (fst (back_pool T)) (snd (back_pool T)) = Inl e"
  shows "clients (merge_back E T) = clients T"
    and "Error_merging Back e \<in> set (calls (merge_back E T))"
  using assms
  by (auto simp: merge_back_def back_pool_def split: prod.splits)

lemma center_pool_calls [simp]: "center_pool (T\<lparr>calls := tr\<rparr>) = center_pool T"
  by (simp add: center_pool_def)

text \<open>
  C1 (as the code has it). In personalization mode the merge step leaves every
  participant's \<^verbatim>\<open>back\<close> state as it is: the fusion of \<^verbatim>\<open>back\<close> is the part that is
  switched off. The \<^verbatim>\<open>center_back\<close> states are not excluded: the fusion pool holds the
  state of every server copy that has a model, and when the merge of that pool returns a
  state and every copy has a model, every copy is given the fused state.
\<close>

theorem merge_in_personalization_mode:
  assumes "personalization_mode T"
  shows "clients (merge_model_weights E epoch T) = clients T
       \<and> fst (center_pool T) = List.map_filter (\<lambda>(c, sc). center_back_model sc) (sc_clients T)
       \<and> (\<forall>w. merge_weights E (fst (center_pool T)) (snd (center_pool T)) = Inr w
              \<and> list_all (\<lambda>(c, sc). center_back_model sc \<noteq> None) (sc_clients T)
            \<longrightarrow> sc_clients (merge_model_weights E epoch T)
                  = map (\<lambda>(c, sc). (c, sc\<lparr>center_back_model := Some w\<rparr>)) (sc_clients T))"
proof -
  let ?T0 = "T\<lparr>calls := calls T @ [Merge_model_weights epoch]\<rparr>"
  have mmw: "merge_model_weights E epoch T = merge_center E ?T0"
    using assms by (simp add: merge_model_weights_def Let_def merge_center_mode)
  have a: "clients (merge_model_weights E epoch T) = clients T"
    by (simp add: mmw merge_center_clients)
  have b: "fst (center_pool T)
      = List.map_filter (\<lambda>(c, sc). center_back_model sc) (sc_clients T)"
    using collect_center_params [of "kv_factor (args T)" "clients T" "sc_clients T" "[]" "[]" "[]"]
    by (auto simp: center_pool_def split: prod.splits)
  have c: "sc_clients (merge_model_weights E epoch T)
      = map (\<lambda>(c, sc). (c, sc\<lparr>center_back_model := Some w\<rparr>)) (sc_clients T)"
    if "merge_weights E (fst (center_pool T)) (snd (center_pool T)) = Inr w"
      and "list_all (\<lambda>(c, sc). center_back_model sc \<noteq> None) (sc_clients T)" for w
    using merge_center_success [of E ?T0 w] that by (simp add: mmw)
  from a b c show ?thesis by blast
qed

theorem merge_in_personalization_mode_witness:
  "personalization_mode (small_trainer True)
   \<and> clients (merge_model_weights small_env 0 (small_trainer True))
       = clients (small_trainer True)
   \<and> merge_weights small_env (fst (center_pool (small_trainer True)))
        (snd (center_pool (small_trainer True))) = Inr 25
   \<and> list_all (\<lambda>(c, sc). center_back_model sc \<noteq> None) (sc_clients (small_trainer True))
   \<and> sc_clients (merge_model_weights small_env 0 (small_trainer True))
       = map (\<lambda>(c, sc). (c, sc\<lparr>center_back_model := Some 25\<rparr>))
           (sc_clients (small_trainer True))"
proof -
  have pm: "personalization_mode (small_trainer True)"
    by (simp add: small_trainer_def)
  have m: "merge_weights small_env (fst (center_pool (small_trainer True)))
        (snd (center_pool (small_trainer True))) = Inr 25"
    by code_simp
  have l: "list_all (\<lambda>(c, sc). center_back_model sc \<noteq> None)
        (sc_clients (small_trainer True))"
    by (simp add: small_trainer_def small_sc_client_def)
  from merge_in_personalization_mode [OF pm, of small_env 0] pm m l show ?thesis
    by blast
qed

text \<open>
  C1 (as stated) fails: with two participants in personalization mode the merge step
  replaces the \<^verbatim>\<open>center_back\<close> states \<open>10\<close> and \<open>30\<close> by their fused state \<open>25\<close>, and
  leaves the \<^verbatim>\<open>back\<close> states \<open>5\<close> and \<open>7\<close> unfused.
\<close>

theorem personalization_merges_center_back:
  "personalization_mode (small_trainer True)
   \<and> map (\<lambda>(c, sc). center_back_model sc) (sc_clients (small_trainer True))
       = [Some 10, Some 30]
   \<and> map (\<lambda>(c, sc). center_back_model sc)
        (sc_clients (merge_model_weights small_env 0 (small_trainer True)))
       = [Some 25, Some 25]
   \<and> map (\<lambda>(c, cl). back_model cl)
        (clients (merge_model_weights small_env 0 (small_trainer True)))
       = [Some 5, Some 7]"
  by code_simp

lemma train_iterations_merge:
  "train_iterations (E\<lparr>merge_weights := m\<rparr>) epoch c its s = train_iterations E epoch c its s"
  by (induction E epoch c its s rule: train_iterations.induct)
     (simp_all split: sum.splits)

lemma train_clients_merge:
  "train_clients (E\<lparr>merge_weights := m\<rparr>) epoch cls scs = train_clients E epoch cls scs"
  by (induction E epoch cls scs rule: train_clients.induct)
     (simp_all add: train_iterations_merge split: sum.splits option.splits prod.splits)

lemma back_pool_merge_center [simp]: "back_pool (merge_center E T) = back_pool T"
  by (simp add: back_pool_def merge_center_clients)

lemma back_pool_calls [simp]: "back_pool (T\<lparr>calls := tr\<rparr>) = back_pool T"
  by (simp add: back_pool_def)

lemma merge_back_sc_clients: "sc_clients (merge_back E T) = sc_clients T"
  by (simp add: merge_back_def split: prod.splits sum.splits)

lemma merge_back_calls_prefix: "set (calls T) \<subseteq> set (calls (merge_back E T))"
  by (auto simp: merge_back_def split: prod.splits sum.splits)

text \<open>
  C2 (as the code has it). A failure of the merge function is caught by the handler of the
  merge step: whether \<^verbatim>\<open>train_one_epoch\<close> raises, and what it raises, does not depend on
  the merge function at all. When the merge of the \<^verbatim>\<open>center_back\<close> pool raises, the error
  is printed and the server copies keep their states; when the merge of the \<^verbatim>\<open>back\<close>
  pool raises, the error is printed and the participants keep theirs.
\<close>

theorem merge_failure_is_caught:
  "(train_one_epoch (E\<lparr>merge_weights := m\<rparr>) epoch T = Inl err
      \<longleftrightarrow> train_one_epoch E epoch T = Inl err)
   \<and> (merge_weights E (fst (center_pool T)) (snd (center_pool T)) = Inl e
        \<longrightarrow> sc_clients (merge_model_weights E epoch T) = sc_clients T
          \<and> Error_merging Center_back e \<in> set (calls (merge_model_weights E epoch T)))
   \<and> (\<not> personalization_mode T
        \<and> merge_weights E (fst (back_pool T)) (snd (back_pool T)) = Inl e'
        \<longrightarrow> clients (merge_model_weights E epoch T) = clients T
          \<and> Error_merging Back e' \<in> set (calls (merge_model_weights E epoch T)))"
proof -
  let ?T0 = "T\<lparr>calls := calls T @ [Merge_model_weights epoch]\<rparr>"
  have a: "train_one_epoch (E\<lparr>merge_weights := m\<rparr>) epoch T = Inl err
      \<longleftrightarrow> train_one_epoch E epoch T = Inl err"
    by (simp add: train_one_epoch_def train_clients_merge Let_def
        split: sum.splits prod.splits)
  have b: "sc_clients (merge_model_weights E epoch T) = sc_clients T
      \<and> Error_merging Center_back e \<in> set (calls (merge_model_weights E epoch T))"
    if "merge_weights E (fst (center_pool T)) (snd (center_pool T)) = Inl e"
  proof -
    from that have f: "merge_weights E (fst (center_pool ?T0)) (snd (center_pool ?T0)) = Inl e"
      by simp
    have "sc_clients (merge_center E ?T0) = sc_clients T"
      using merge_center_failure(1) [OF f] by simp
    moreover have "Error_merging Center_back e \<in> set (calls (merge_center E ?T0))"
      by (rule merge_center_failure(2) [OF f])
    ultimately show ?thesis
      using merge_back_calls_prefix [of "merge_center E ?T0" E]
      by (auto simp: merge_model_weights_def Let_def merge_back_sc_clients)
  qed
  have c: "clients (merge_model_weights E epoch T) = clients T
      \<and> Error_merging Back e' \<in> set (calls (merge_model_weights E epoch T))"
    if "\<not> personalization_mode T"
      and "merge_weights E (fst (back_pool T)) (snd (back_pool T)) = Inl e'"
  proof -
    from that(2) have f: "merge_weights E (fst (back_pool (merge_center E ?T0)))
        (snd (back_pool (merge_center E ?T0))) = Inl e'"
      by simp
    have "merge_model_weights E epoch T = merge_back E (merge_center E ?T0)"
      using that(1) by (simp add: merge_model_weights_def Let_def merge_center_mode)
    then show ?thesis
      using merge_back_failure [OF f] by (simp add: merge_center_clients)
  qed
  from a b c show ?thesis by blast
qed

theorem merge_failure_is_caught_witness:
  "merge_weights failing_env (fst (center_pool (small_trainer False)))
      (snd (center_pool (small_trainer False))) = Inl ShapeMismatch
   \<and> \<not> personalization_mode (small_trainer False)
   \<and> merge_weights failing_env (fst (back_pool (small_trainer False)))
      (snd (back_pool (small_trainer False))) = Inl ShapeMismatch
   \<and> sc_clients (merge_model_weights failing_env 0 (small_trainer False))
       = sc_clients (small_trainer False)
   \<and> clients (merge_model_weights failing_env 0 (small_trainer False))
       = clients (small_trainer False)
   \<and> Error_merging Center_back ShapeMismatch
       \<in> set (calls (merge_model_weights failing_env 0 (small_trainer False)))
   \<and> Error_merging Back ShapeMismatch
       \<in> set (calls (merge_model_weights failing_env 0 (small_trainer False)))"
proof -
  have f1: "merge_weights failing_env (fst (center_pool (small_trainer False)))
      (snd (center_pool (small_trainer False))) = Inl ShapeMismatch"
    by (simp add: failing_env_def)
  have f2: "merge_weights failing_env (fst (back_pool (small_trainer False)))
      (snd (back_pool (small_trainer False))) = Inl ShapeMismatch"
    by (simp add: failing_env_def)
  have pm: "\<not> personalization_mode (small_trainer False)"
    by (simp add: small_trainer_def)
  from merge_failure_is_caught
    [where E = failing_env and epoch = 0 and T = "small_trainer False"
       and e = ShapeMismatch and e' = ShapeMismatch]
    f1 f2 pm
  show ?thesis by blast
qed

text \<open>
  C2 (as stated) fails: with a merge function that raises \<^verbatim>\<open>ShapeMismatch\<close> on every
  call, a run of two epochs ends normally; the error of the first epoch is in the trace, and
  so is the training of the second epoch.
\<close>

theorem merge_failure_does_not_abort:
  "merge_weights failing_env [10, 30] [2, 6] = Inl ShapeMismatch
   \<and> \<not> isl (fit failing_env (small_trainer False))
   \<and> Error_merging Center_back ShapeMismatch
       \<in> set (calls (projr (fit failing_env (small_trainer False))))
   \<and> Train_one_epoch 1 \<in> set (calls (projr (fit failing_env (small_trainer False))))"
  by code_simp

section \<open>The training epoch\<close>

lemma trained_client_Nil: "train_f1 cl \<noteq> [] \<Longrightarrow> trained_client E epoch c [] cl = cl"
  by (simp add: trained_client_def)

lemma trained_client_Cons:
  "train_f1 cl \<noteq> [] \<Longrightarrow>
   trained_client E epoch c (it # its) cl =
     trained_client E epoch c its
       (cl\<lparr>back_model := map_option (back_step E c epoch it) (back_model cl),
           train_loss := train_loss cl + train_step_loss E c epoch it,
           train_f1 := butlast (train_f1 cl) @ [last (train_f1 cl) + train_metric E c epoch it]\<rparr>)"
  by (simp add: trained_client_def add.assoc)

lemma trained_sc_client_Cons:
  "trained_sc_client E epoch c (it # its) sc =
     trained_sc_client E epoch c its
       (sc\<lparr>center_back_model := map_option (center_step E c epoch it) (center_back_model sc)\<rparr>)"
  by (simp add: trained_sc_client_def)

lemma train_iterations_result:
  "train_f1 cl \<noteq> [] \<Longrightarrow>
   train_iterations E epoch c its (cl, sc, tr) =
     Inr (trained_client E epoch c its cl, trained_sc_client E epoch c its sc,
          tr @ concat (replicate (length its)
                 (train_iteration_calls c (kv_flag cl) (sc_kv_flag sc))))"
proof (induction its arbitrary: cl sc tr)
  case Nil
  then show ?case by (simp add: trained_client_Nil trained_sc_client_def)
next
  case (Cons it its)
  let ?cl = "cl\<lparr>back_model := map_option (back_step E c epoch it) (back_model cl),
           train_loss := train_loss cl + train_step_loss E c epoch it,
           train_f1 := butlast (train_f1 cl) @ [last (train_f1 cl) + train_metric E c epoch it]\<rparr>"
  let ?sc = "sc\<lparr>center_back_model := map_option (center_step E c epoch it) (center_back_model sc)\<rparr>"
  have ne: "train_f1 ?cl \<noteq> []" by simp
  show ?case
    using Cons.prems Cons.IH [OF ne, of ?sc]
    by (simp add: add_to_last_def trained_client_Cons trained_sc_client_Cons)
qed

lemma train_iterations_empty_f1:
  "train_f1 cl = [] \<Longrightarrow> its \<noteq> [] \<Longrightarrow>
     train_iterations E epoch c its (cl, sc, tr) = Inl IndexError"
  by (cases its) (simp_all add: add_to_last_def)

lemma count_train_iteration_calls:
  "count_list (train_iteration_calls c' a b) (Center_optimizer_step c) = (if c' = c then 1 else 0)"
  "count_list (train_iteration_calls c' a b) (Center_optimizer_zero_grad c) = (if c' = c then 1 else 0)"
  by (simp_all add: train_iteration_calls_def)

lemma filter_concat_replicate_Nil:
  "filter P xs = [] \<Longrightarrow> filter P (concat (replicate n xs)) = []"
  by (induction n) simp_all


lemma train_iteration_calls_markers:
  "filter phase_marker (train_iteration_calls c a b) = []"
  by (simp add: train_iteration_calls_def phase_marker_def)

lemma test_iteration_calls_markers:
  "filter phase_marker (test_iteration_calls c a b) = []"
  by (simp add: test_iteration_calls_def phase_marker_def)

lemma count_concat_replicate:
  "count_list (concat (replicate n xs)) x = n * count_list xs x"
  by (induction n) simp_all

lemma train_clients_result:
  "train_clients E epoch cls scs = Inr (cls', scs', tr) \<Longrightarrow>
   list_all (\<lambda>(c, cl). train_f1 cl \<noteq> []) cls \<Longrightarrow>
     cls' = map (\<lambda>(c, cl). (c, trained_client E epoch c [0..<num_iterations cl] cl)) cls
   \<and> count_list tr (Center_optimizer_step c) = iterations_of c cls
   \<and> count_list tr (Center_optimizer_zero_grad c) = iterations_of c cls
   \<and> filter phase_marker tr = []"
proof (induction cls arbitrary: scs cls' scs' tr)
  case Nil
  then show ?case by (simp add: iterations_of_def)
next
  case (Cons p cls)
  obtain c' cl where p: "p = (c', cl)" by (cases p)
  from Cons.prems(2) p have ne: "train_f1 cl \<noteq> []"
    and rest: "list_all (\<lambda>(c, cl). train_f1 cl \<noteq> []) cls" by simp_all
  show ?case
  proof (cases "num_iterations cl = 0")
    case True
    with Cons.prems(1) p obtain rest' where
      r: "train_clients E epoch cls scs = Inr (rest', scs', tr)" and c: "cls' = (c', cl) # rest'"
      by (auto split: sum.splits)
    from Cons.IH [OF r rest] c p True ne show ?thesis
      by (simp add: iterations_of_def trained_client_Nil)
  next
    case False
    with Cons.prems(1) p obtain sc where sc: "map_of scs c' = Some sc"
      by (auto split: option.splits)
    let ?its = "[0..<num_iterations cl]"
    let ?tr1 = "concat (replicate (length ?its) (train_iteration_calls c' (kv_flag cl) (sc_kv_flag sc)))"
    have it: "train_iterations E epoch c' ?its (cl, sc, []) =
        Inr (trained_client E epoch c' ?its cl, trained_sc_client E epoch c' ?its sc, ?tr1)"
      using train_iterations_result [OF ne, of E epoch c' ?its sc "[]"] by simp
    from Cons.prems(1) p False sc it obtain rest' tr' where
      r: "train_clients E epoch cls (AList.update c' (trained_sc_client E epoch c' ?its sc) scs)
            = Inr (rest', scs', tr')"
      and c: "cls' = (c', trained_client E epoch c' ?its cl) # rest'"
      and t: "tr = ?tr1 @ tr'"
      by (auto split: sum.splits)
    from Cons.IH [OF r rest] c t p show ?thesis
      by (simp add: iterations_of_def count_concat_replicate count_train_iteration_calls
          filter_concat_replicate_Nil train_iteration_calls_markers)
  qed
qed

lemma train_epoch_metrics_result:
  "train_epoch_metrics cls overall = Inr (cls', overall', tr) \<Longrightarrow>
     cls' = map (\<lambda>(c, cl). (c, cl\<lparr>train_f1 := butlast (train_f1 cl)
                    @ [last (train_f1 cl) / real (num_iterations cl)], train_loss := 0\<rparr>)) cls
   \<and> overall' = overall
        + sum_list (map (\<lambda>(c, cl). last (train_f1 cl) / real (num_iterations cl)) cls)
   \<and> tr = map (\<lambda>(c, cl). Get_main_metric c Train) cls"
proof (induction cls arbitrary: overall cls' overall' tr)
  case Nil
  then show ?case by simp
next
  case (Cons p cls)
  obtain c cl where p: "p = (c, cl)" by (cases p)
  let ?f1 = "last (train_f1 cl) / real (num_iterations cl)"
  from Cons.prems p obtain rest' tr' where
    r: "train_epoch_metrics cls (overall + ?f1) = Inr (rest', overall', tr')"
    and c: "cls' = (c, cl\<lparr>train_f1 := butlast (train_f1 cl) @ [?f1], train_loss := 0\<rparr>) # rest'"
    and t: "tr = Get_main_metric c Train # tr'"
    by (auto simp: Let_def split: if_splits sum.splits)
  from Cons.IH [OF r] c t p show ?case by (simp add: add.assoc)
qed

lemma collect_center_calls:
  "\<not> merge_call x \<Longrightarrow>
     count_list (snd (snd (collect_center kv cls scs (ps, ls, tr)))) x = count_list tr x"
  by (induction scs arbitrary: ps ls tr)
     (auto simp: merge_call_def split: option.splits)

lemma collect_back_calls:
  "\<not> merge_call x \<Longrightarrow>
     count_list (snd (snd (collect_back cls (ps, ls, tr)))) x = count_list tr x"
  by (induction cls arbitrary: ps ls tr)
     (auto simp: merge_call_def split: option.splits)

lemma distribute_center_calls:
  "\<not> merge_call x \<Longrightarrow> count_list (fst (snd (distribute_center w scs))) x = 0"
  by (induction scs) (auto simp: merge_call_def split: option.splits prod.splits)

lemma distribute_back_calls:
  "\<not> merge_call x \<Longrightarrow> count_list (fst (snd (distribute_back w cls))) x = 0"
  by (induction cls) (auto simp: merge_call_def split: option.splits prod.splits)


lemma merge_center_calls:
  assumes "\<not> merge_call x"
  shows "count_list (calls (merge_center E T)) x = count_list (calls T) x"
proof -
  obtain ps ls tr where c: "collect_center (kv_factor (args T)) (clients T) (sc_clients T)
      ([], [], []) = (ps, ls, tr)" by (cases "collect_center (kv_factor (args T)) (clients T) (sc_clients T)
      ([], [], [])") auto
  have tr: "count_list tr x = 0"
    using collect_center_calls [OF assms, of "kv_factor (args T)" "clients T" "sc_clients T" "[]" "[]" "[]"] c
    by simp
  have x: "x \<noteq> Merge_weights Center_back" "\<And>e. x \<noteq> Error_merging Center_back e"
    using assms by (auto simp: merge_call_def)
  show ?thesis
  proof (cases "merge_weights E ps ls")
    case (Inl e)
    then show ?thesis using c tr x by (auto simp: merge_center_def)
  next
    case (Inr w)
    obtain scs tr' err where d: "distribute_center w (sc_clients T) = (scs, tr', err)"
      by (cases "distribute_center w (sc_clients T)") auto
    have "count_list tr' x = 0"
      using distribute_center_calls [OF assms, of w "sc_clients T"] d by simp
    then show ?thesis using c tr x Inr d
      by (auto simp: merge_center_def split: option.splits)
  qed
qed

lemma merge_back_calls:
  assumes "\<not> merge_call x"
  shows "count_list (calls (merge_back E T)) x = count_list (calls T) x"
proof -
  obtain ps ls tr where c: "collect_back (clients T) ([], [], []) = (ps, ls, tr)"
    by (cases "collect_back (clients T) ([], [], [])") auto
  have tr: "count_list tr x = 0"
    using collect_back_calls [OF assms, of "clients T" "[]" "[]" "[]"] c by simp
  have x: "x \<noteq> Merge_weights Back" "\<And>e. x \<noteq> Error_merging Back e"
    using assms by (auto simp: merge_call_def)
  show ?thesis
  proof (cases "merge_weights E ps ls")
    case (Inl e)
    then show ?thesis using c tr x by (auto simp: merge_back_def)
  next
    case (Inr w)
    obtain cls tr' err where d: "distribute_back w (clients T) = (cls, tr', err)"
      by (cases "distribute_back w (clients T)") auto
    have "count_list tr' x = 0"
      using distribute_back_calls [OF assms, of w "clients T"] d by simp
    then show ?thesis using c tr x Inr d
      by (auto simp: merge_back_def split: option.splits)
  qed
qed

lemma merge_model_weights_calls:
  assumes "\<not> merge_call x"
  shows "count_list (calls (merge_model_weights E epoch T)) x = count_list (calls T) x"
proof -
  have "x \<noteq> Merge_model_weights epoch" using assms by (auto simp: merge_call_def)
  then show ?thesis
    by (auto simp: merge_model_weights_def Let_def merge_back_calls [OF assms]
        merge_center_calls [OF assms])
qed




lemma create_iters_train_f1:
  "list_all (\<lambda>(c, cl). train_f1 cl \<noteq> []) (create_iters Train cls)"
  by (induction cls) (auto simp: create_iters_def)

lemma iterations_of_create_iters:
  "iterations_of c (create_iters Train cls) = iterations_of c cls"
  by (induction cls) (auto simp: create_iters_def iterations_of_def)

lemma count_get_main_metric:
  "count_list (map (\<lambda>(c, cl). Get_main_metric c m) cls) (Center_optimizer_step c') = 0"
  "count_list (map (\<lambda>(c, cl). Get_main_metric c m) cls) (Center_optimizer_zero_grad c') = 0"
  by (induction cls) auto

lemma train_one_epoch_unfold:
  assumes "train_one_epoch E epoch T = Inr T'"
  shows "\<exists>cls scs tr cls' overall tr'.
      train_clients E epoch (create_iters Train (clients T)) (sc_clients T) = Inr (cls, scs, tr)
    \<and> train_epoch_metrics cls 0 = Inr (cls', overall, tr')
    \<and> num_clients T \<noteq> 0
    \<and> T' = (if \<not> pooling_mode T then
               merge_model_weights E epoch
                 (T\<lparr>clients := cls', sc_clients := scs,
                    overall_f1_train := overall_f1_train T @ [overall / real (num_clients T)],
                    calls := calls T @ [Train_one_epoch epoch] @ tr @ tr'\<rparr>)
             else T\<lparr>clients := cls', sc_clients := scs,
                    overall_f1_train := overall_f1_train T @ [overall / real (num_clients T)],
                    calls := calls T @ [Train_one_epoch epoch] @ tr @ tr'\<rparr>)"
  using assms
  by (auto simp: train_one_epoch_def Let_def split: sum.splits prod.splits if_splits)

text \<open>
  C3 (as the code has it). In every training epoch that returns, whatever the
  personalization mode and the freeze flags are, the trace gains exactly one
  \<^verbatim>\<open>center_optimizer.step()\<close> and one \<^verbatim>\<open>center_optimizer.zero_grad()\<close> on the server copy
  of a participant for each training iteration of that participant.
\<close>

theorem center_optimizer_stepped_every_iteration:
  assumes "train_one_epoch E epoch T = Inr T'"
  shows "count_list (calls T') (Center_optimizer_step c)
           = count_list (calls T) (Center_optimizer_step c) + iterations_of c (clients T)
       \<and> count_list (calls T') (Center_optimizer_zero_grad c)
           = count_list (calls T) (Center_optimizer_zero_grad c) + iterations_of c (clients T)"
proof -
  from assms obtain cls scs tr cls' overall tr' where
    tc: "train_clients E epoch (create_iters Train (clients T)) (sc_clients T) = Inr (cls, scs, tr)"
    and tm: "train_epoch_metrics cls 0 = Inr (cls', overall, tr')"
    and T': "T' = (if \<not> pooling_mode T then
               merge_model_weights E epoch
                 (T\<lparr>clients := cls', sc_clients := scs,
                    overall_f1_train := overall_f1_train T @ [overall / real (num_clients T)],
                    calls := calls T @ [Train_one_epoch epoch] @ tr @ tr'\<rparr>)
             else T\<lparr>clients := cls', sc_clients := scs,
                    overall_f1_train := overall_f1_train T @ [overall / real (num_clients T)],
                    calls := calls T @ [Train_one_epoch epoch] @ tr @ tr'\<rparr>)"
    using train_one_epoch_unfold [OF assms] by blast
  have n1: "\<not> merge_call (Center_optimizer_step c)" and n2: "\<not> merge_call (Center_optimizer_zero_grad c)"
    by (simp_all add: merge_call_def)
  from train_clients_result [OF tc create_iters_train_f1, of c]
  have c1: "count_list tr (Center_optimizer_step c) = iterations_of c (clients T)"
    and c2: "count_list tr (Center_optimizer_zero_grad c) = iterations_of c (clients T)"
    by (simp_all add: iterations_of_create_iters)
  from train_epoch_metrics_result [OF tm]
  have tr': "tr' = map (\<lambda>(c, cl). Get_main_metric c Train) cls" by simp
  show ?thesis
    unfolding T'
    by (simp add: merge_model_weights_calls [OF n1] merge_model_weights_calls [OF n2]
        c1 c2 tr' count_get_main_metric)
qed

lemma small_train_returns:
  "train_one_epoch small_env 0 frozen_trainer
     = Inr (projr (train_one_epoch small_env 0 frozen_trainer))"
proof -
  have "\<not> isl (train_one_epoch small_env 0 frozen_trainer)" by code_simp
  then show ?thesis by simp
qed

theorem center_optimizer_stepped_every_iteration_witness:
  "train_one_epoch small_env 0 frozen_trainer
     = Inr (projr (train_one_epoch small_env 0 frozen_trainer))
   \<and> count_list (calls (projr (train_one_epoch small_env 0 frozen_trainer)))
         (Center_optimizer_step ''abcd'')
       = count_list (calls frozen_trainer) (Center_optimizer_step ''abcd'')
         + iterations_of ''abcd'' (clients frozen_trainer)"
  using center_optimizer_stepped_every_iteration [OF small_train_returns, of "''abcd''"]
    small_train_returns
  by blast

text \<open>
  C3 (as stated) fails: in personalization mode, with the freeze flag of every server copy
  set, a training epoch of the small run still steps and clears the \<^verbatim>\<open>center_back\<close>
  optimizer of participant \<^verbatim>\<open>abcd\<close>.
\<close>

theorem frozen_center_optimizer_is_stepped:
  "personalization_mode frozen_trainer
   \<and> list_all (\<lambda>(c, sc). center_back_frozen sc) (sc_clients frozen_trainer)
   \<and> \<not> isl (train_one_epoch small_env 0 frozen_trainer)
   \<and> Center_optimizer_step ''abcd''
       \<in> set (calls (projr (train_one_epoch small_env 0 frozen_trainer)))
   \<and> Center_optimizer_zero_grad ''abcd''
       \<in> set (calls (projr (train_one_epoch small_env 0 frozen_trainer)))"
  by code_simp



section \<open>The testing epoch\<close>

lemma tested_client_Nil: "test_f1 cl \<noteq> [] \<Longrightarrow> tested_client E epoch c [] cl = cl"
  by (simp add: tested_client_def)

lemma tested_client_Cons:
  "test_f1 cl \<noteq> [] \<Longrightarrow>
   tested_client E epoch c (it # its) cl =
     tested_client E epoch c its
       (cl\<lparr>test_loss := test_loss cl + test_step_loss E c epoch it,
           test_f1 := butlast (test_f1 cl) @ [last (test_f1 cl) + test_metric E c epoch it]\<rparr>)"
  by (simp add: tested_client_def add.assoc)

lemma test_iterations_result:
  "test_f1 cl \<noteq> [] \<Longrightarrow>
   test_iterations E epoch c sc its (cl, tr) =
     Inr (tested_client E epoch c its cl,
          tr @ concat (replicate (length its)
                 (test_iteration_calls c (kv_test_flag cl) (sc_kv_test_flag sc))))"
proof (induction its arbitrary: cl tr)
  case Nil
  then show ?case by (simp add: tested_client_Nil)
next
  case (Cons it its)
  let ?cl = "cl\<lparr>test_loss := test_loss cl + test_step_loss E c epoch it,
           test_f1 := butlast (test_f1 cl) @ [last (test_f1 cl) + test_metric E c epoch it]\<rparr>"
  have ne: "test_f1 ?cl \<noteq> []" by simp
  show ?case
    using Cons.prems Cons.IH [OF ne]
    by (simp add: add_to_last_def tested_client_Cons)
qed

lemma test_iteration_calls_evaluation:
  "list_all evaluation_call (test_iteration_calls c a b)"
  by (simp add: test_iteration_calls_def evaluation_call_def)

lemma count_test_iteration_calls:
  "count_list (test_iteration_calls c' a b) (Forward_center_back c) = (if c' = c then 1 else 0)"
  "count_list (test_iteration_calls c' a b) (Forward_back c) = (if c' = c then 1 else 0)"
  by (simp_all add: test_iteration_calls_def)

lemma list_all_concat_replicate:
  "list_all P xs \<Longrightarrow> list_all P (concat (replicate n xs))"
  by (induction n) simp_all

lemma test_clients_result:
  "test_clients E epoch scs cls = Inr (cls', tr) \<Longrightarrow>
   list_all (\<lambda>(c, cl). test_f1 cl \<noteq> []) cls \<Longrightarrow>
     cls' = map (\<lambda>(c, cl). (c, tested_client E epoch c [0..<test_DataLoader_len cl]
                               (cl\<lparr>num_test_iterations := test_DataLoader_len cl\<rparr>))) cls
   \<and> list_all evaluation_call tr
   \<and> count_list tr (Forward_center_back c) = test_iterations_of c cls
   \<and> count_list tr (Forward_back c) = test_iterations_of c cls
   \<and> filter phase_marker tr = []"
proof (induction cls arbitrary: cls' tr)
  case Nil
  then show ?case by (simp add: test_iterations_of_def)
next
  case (Cons p cls)
  obtain c' cl where p: "p = (c', cl)" by (cases p)
  let ?cl0 = "cl\<lparr>num_test_iterations := test_DataLoader_len cl\<rparr>"
  from Cons.prems(2) p have ne: "test_f1 ?cl0 \<noteq> []"
    and rest: "list_all (\<lambda>(c, cl). test_f1 cl \<noteq> []) cls" by simp_all
  show ?case
  proof (cases "test_DataLoader_len cl = 0")
    case True
    with Cons.prems(1) p obtain rest' where
      r: "test_clients E epoch scs cls = Inr (rest', tr)" and c: "cls' = (c', ?cl0) # rest'"
      by (auto simp: Let_def split: sum.splits)
    from Cons.IH [OF r rest] c p True ne show ?thesis
      by (simp add: test_iterations_of_def tested_client_Nil)
  next
    case False
    with Cons.prems(1) p obtain sc where sc: "map_of scs c' = Some sc"
      by (auto simp: Let_def split: option.splits)
    let ?its = "[0..<test_DataLoader_len cl]"
    let ?tr1 = "concat (replicate (length ?its)
        (test_iteration_calls c' (kv_test_flag ?cl0) (sc_kv_test_flag sc)))"
    have it: "test_iterations E epoch c' sc ?its (?cl0, []) =
        Inr (tested_client E epoch c' ?its ?cl0, ?tr1)"
      using test_iterations_result [OF ne, of E epoch c' sc ?its "[]"] by simp
    from Cons.prems(1) p False sc it obtain rest' tr' where
      r: "test_clients E epoch scs cls = Inr (rest', tr')"
      and c: "cls' = (c', tested_client E epoch c' ?its ?cl0) # rest'"
      and t: "tr = ?tr1 @ tr'"
      by (auto simp: Let_def split: sum.splits)
    from Cons.IH [OF r rest] c t p show ?thesis
      by (simp add: test_iterations_of_def count_concat_replicate count_test_iteration_calls
          list_all_concat_replicate test_iteration_calls_evaluation
          filter_concat_replicate_Nil test_iteration_calls_markers)
  qed
qed

lemma test_epoch_metrics_result:
  "test_epoch_metrics cls overall = Inr (cls', overall', tr) \<Longrightarrow>
     cls' = map (\<lambda>(c, cl). (c, cl\<lparr>test_f1 := butlast (test_f1 cl)
                    @ [last (test_f1 cl) / real (test_DataLoader_len cl)], test_loss := 0\<rparr>)) cls
   \<and> overall' = overall
        + sum_list (map (\<lambda>(c, cl). last (test_f1 cl) / real (test_DataLoader_len cl)) cls)
   \<and> tr = map (\<lambda>(c, cl). Get_main_metric c Test) cls"
proof (induction cls arbitrary: overall cls' overall' tr)
  case Nil
  then show ?case by simp
next
  case (Cons p cls)
  obtain c cl where p: "p = (c, cl)" by (cases p)
  let ?f1 = "last (test_f1 cl) / real (test_DataLoader_len cl)"
  from Cons.prems p obtain rest' tr' where
    r: "test_epoch_metrics cls (overall + ?f1) = Inr (rest', overall', tr')"
    and c: "cls' = (c, cl\<lparr>test_f1 := butlast (test_f1 cl) @ [?f1], test_loss := 0\<rparr>) # rest'"
    and t: "tr = Get_main_metric c Test # tr'"
    by (auto simp: Let_def split: if_splits sum.splits)
  from Cons.IH [OF r] c t p show ?case by (simp add: add.assoc)
qed

lemma create_iters_test_f1:
  "list_all (\<lambda>(c, cl). test_f1 cl \<noteq> []) (create_iters Test cls)"
  by (induction cls) (auto simp: create_iters_def)

lemma test_iterations_of_create_iters:
  "test_iterations_of c (create_iters Test cls) = test_iterations_of c cls"
  by (induction cls) (auto simp: create_iters_def test_iterations_of_def)

lemma test_one_epoch_unfold:
  assumes "test_one_epoch E epoch T = Inr T'"
  shows "\<exists>cls tr cls' overall tr'.
      test_clients E epoch (sc_clients T) (create_iters Test (clients T)) = Inr (cls, tr)
    \<and> test_epoch_metrics cls 0 = Inr (cls', overall, tr')
    \<and> num_clients T \<noteq> 0
    \<and> T' = T\<lparr>clients := cls',
             overall_f1_test := overall_f1_test T @ [overall / real (num_clients T)],
             calls := calls T @ [Test_one_epoch epoch] @ tr @ tr'\<rparr>"
  using assms
  by (auto simp: test_one_epoch_def split: sum.splits prod.splits if_splits)

lemma get_main_metric_evaluation:
  "list_all evaluation_call (map (\<lambda>(c, cl). Get_main_metric c Test) cls)"
  by (induction cls) (auto simp: evaluation_call_def)

lemma count_get_main_metric_forward:
  "count_list (map (\<lambda>(c, cl). Get_main_metric c m) cls) (Forward_center_back c') = 0"
  "count_list (map (\<lambda>(c, cl). Get_main_metric c m) cls) (Forward_back c') = 0"
  by (induction cls) auto

lemma small_test_returns:
  "test_one_epoch small_env 0 (small_trainer False)
     = Inr (projr (test_one_epoch small_env 0 (small_trainer False)))"
proof -
  have "\<not> isl (test_one_epoch small_env 0 (small_trainer False))" by code_simp
  then show ?thesis by simp
qed


lemma tested_client_models:
  "front_model (tested_client E epoch c its cl) = front_model cl"
  "back_model (tested_client E epoch c its cl) = back_model cl"
  by (simp_all add: tested_client_def)

lemma test_clients_trace:
  "test_clients E epoch scs cls = Inr (cls', tr) \<Longrightarrow>
   list_all (\<lambda>(c, cl). test_f1 cl \<noteq> []) cls \<Longrightarrow>
     tr = concat (map (\<lambda>(c, cl). concat (replicate (test_DataLoader_len cl)
            (test_iteration_calls c (kv_test_flag cl)
               (sc_kv_test_flag (the (map_of scs c)))))) cls)"
proof (induction cls arbitrary: cls' tr)
  case Nil
  then show ?case by simp
next
  case (Cons p cls)
  obtain c' cl where p: "p = (c', cl)" by (cases p)
  let ?cl0 = "cl\<lparr>num_test_iterations := test_DataLoader_len cl\<rparr>"
  from Cons.prems(2) p have ne: "test_f1 ?cl0 \<noteq> []"
    and rest: "list_all (\<lambda>(c, cl). test_f1 cl \<noteq> []) cls" by simp_all
  show ?case
  proof (cases "test_DataLoader_len cl = 0")
    case True
    with Cons.prems(1) p obtain rest' where
      r: "test_clients E epoch scs cls = Inr (rest', tr)"
      by (auto simp: Let_def split: sum.splits)
    from Cons.IH [OF r rest] p True show ?thesis by simp
  next
    case False
    with Cons.prems(1) p obtain sc where sc: "map_of scs c' = Some sc"
      by (auto simp: Let_def split: option.splits)
    let ?its = "[0..<test_DataLoader_len cl]"
    let ?tr1 = "concat (replicate (length ?its)
        (test_iteration_calls c' (kv_test_flag ?cl0) (sc_kv_test_flag sc)))"
    have it: "test_iterations E epoch c' sc ?its (?cl0, []) =
        Inr (tested_client E epoch c' ?its ?cl0, ?tr1)"
      using test_iterations_result [OF ne, of E epoch c' sc ?its "[]"] by simp
    from Cons.prems(1) p False sc it obtain rest' tr' where
      r: "test_clients E epoch scs cls = Inr (rest', tr')"
      and t: "tr = ?tr1 @ tr'"
      by (auto simp: Let_def split: sum.splits)
    from Cons.IH [OF r rest] t p sc show ?thesis by simp
  qed
qed

lemma test_trace_create_iters:
  "concat (map (\<lambda>(c, cl). concat (replicate (test_DataLoader_len cl)
      (test_iteration_calls c (kv_test_flag cl) (f c)))) (create_iters Test cls))
   = concat (map (\<lambda>(c, cl). concat (replicate (test_DataLoader_len cl)
      (test_iteration_calls c (kv_test_flag cl) (f c)))) cls)"
  by (induction cls) (auto simp: create_iters_def)

lemma get_main_metric_create_iters:
  "map (\<lambda>(c, cl). Get_main_metric c m) (map (\<lambda>(c, cl). (c, g c cl)) cls)
     = map (\<lambda>(c, cl). Get_main_metric c m) cls"
  by (induction cls) auto

lemma test_one_epoch_trace:
  assumes "test_one_epoch E epoch T = Inr T'"
  shows "calls T' = calls T @ [Test_one_epoch epoch]
           @ concat (map (\<lambda>(c, cl). concat (replicate (test_DataLoader_len cl)
               [Forward_front_key_value_test c (kv_test_flag cl),
                Forward_center_front_test c (sc_kv_test_flag (the (map_of (sc_clients T) c))),
                Forward_center_back c, Forward_back c, Calculate_loss c Test,
                Calculate_test_metric c])) (clients T))
           @ map (\<lambda>(c, cl). Get_main_metric c Test) (clients T)"
proof -
  from test_one_epoch_unfold [OF assms] obtain cls tr cls' overall tr' where
    tc: "test_clients E epoch (sc_clients T) (create_iters Test (clients T)) = Inr (cls, tr)"
    and tm: "test_epoch_metrics cls 0 = Inr (cls', overall, tr')"
    and T': "T' = T\<lparr>clients := cls',
             overall_f1_test := overall_f1_test T @ [overall / real (num_clients T)],
             calls := calls T @ [Test_one_epoch epoch] @ tr @ tr'\<rparr>"
    by blast
  have tr: "tr = concat (map (\<lambda>(c, cl). concat (replicate (test_DataLoader_len cl)
            (test_iteration_calls c (kv_test_flag cl)
               (sc_kv_test_flag (the (map_of (sc_clients T) c)))))) (clients T))"
    using test_clients_trace [OF tc create_iters_test_f1]
    by (simp only: test_trace_create_iters)
  from test_clients_result [OF tc create_iters_test_f1, of "''''"]
  have cls: "cls = map (\<lambda>(c, cl). (c, tested_client E epoch c [0..<test_DataLoader_len cl]
                               (cl\<lparr>num_test_iterations := test_DataLoader_len cl\<rparr>)))
                (create_iters Test (clients T))"
    by simp
  from test_epoch_metrics_result [OF tm]
  have "tr' = map (\<lambda>(c, cl). Get_main_metric c Test) cls" by simp
  also have "\<dots> = map (\<lambda>(c, cl). Get_main_metric c Test) (clients T)"
    unfolding cls create_iters_def
    by (induction "clients T") (simp_all split: prod.splits)
  finally have tr': "tr' = map (\<lambda>(c, cl). Get_main_metric c Test) (clients T)" .
  show ?thesis
    unfolding T' tr tr' by (simp add: test_iteration_calls_def)
qed

lemma forward_sequences:
  "List.map_filter segment_call (test_iteration_calls c a b)
     = [Front, Center_front, Center_back, Back]"
  "List.map_filter segment_call (train_iteration_calls c a' b')
     = [Front, Center_front, Center_back, Back]"
  by (simp_all add: test_iteration_calls_def train_iteration_calls_def segment_call_def
      List.map_filter_simps)

lemma test_epoch_frame:
  assumes "test_one_epoch E epoch T = Inr T'"
  shows "sc_clients T' = sc_clients T
       \<and> map (\<lambda>(c, cl). (c, front_model cl, back_model cl)) (clients T')
           = map (\<lambda>(c, cl). (c, front_model cl, back_model cl)) (clients T)
       \<and> (\<exists>tr. calls T' = calls T @ tr \<and> list_all evaluation_call tr
              \<and> count_list tr (Forward_center_back c) = test_iterations_of c (clients T)
              \<and> count_list tr (Forward_back c) = test_iterations_of c (clients T))"
proof -
  from test_one_epoch_unfold [OF assms] obtain cls tr cls' overall tr' where
    tc: "test_clients E epoch (sc_clients T) (create_iters Test (clients T)) = Inr (cls, tr)"
    and tm: "test_epoch_metrics cls 0 = Inr (cls', overall, tr')"
    and T': "T' = T\<lparr>clients := cls',
             overall_f1_test := overall_f1_test T @ [overall / real (num_clients T)],
             calls := calls T @ [Test_one_epoch epoch] @ tr @ tr'\<rparr>"
    by blast
  from test_clients_result [OF tc create_iters_test_f1, of c]
  have cls: "cls = map (\<lambda>(c, cl). (c, tested_client E epoch c [0..<test_DataLoader_len cl]
                               (cl\<lparr>num_test_iterations := test_DataLoader_len cl\<rparr>)))
                (create_iters Test (clients T))"
    and ev: "list_all evaluation_call tr"
    and c1: "count_list tr (Forward_center_back c) = test_iterations_of c (clients T)"
    and c2: "count_list tr (Forward_back c) = test_iterations_of c (clients T)"
    by (simp_all add: test_iterations_of_create_iters)
  from test_epoch_metrics_result [OF tm]
  have cls': "cls' = map (\<lambda>(c, cl). (c, cl\<lparr>test_f1 := butlast (test_f1 cl)
                    @ [last (test_f1 cl) / real (test_DataLoader_len cl)], test_loss := 0\<rparr>)) cls"
    and tr': "tr' = map (\<lambda>(c, cl). Get_main_metric c Test) cls"
    by simp_all
  have a: "sc_clients T' = sc_clients T" by (simp add: T')
  have b: "map (\<lambda>(c, cl). (c, front_model cl, back_model cl)) (clients T')
           = map (\<lambda>(c, cl). (c, front_model cl, back_model cl)) (clients T)"
    unfolding T' cls' cls create_iters_def
    by (induction "clients T") (simp_all add: tested_client_models split: prod.splits)
  let ?tr = "[Test_one_epoch epoch] @ tr @ tr'"
  have "calls T' = calls T @ ?tr" by (simp add: T')
  moreover have "list_all evaluation_call ?tr"
    using ev by (simp add: tr' get_main_metric_evaluation evaluation_call_def)
  moreover have "count_list ?tr (Forward_center_back c) = test_iterations_of c (clients T)"
    using c1 by (simp add: tr' count_get_main_metric_forward)
  moreover have "count_list ?tr (Forward_back c) = test_iterations_of c (clients T)"
    using c2 by (simp add: tr' count_get_main_metric_forward)
  ultimately have "\<exists>tr. calls T' = calls T @ tr \<and> list_all evaluation_call tr
              \<and> count_list tr (Forward_center_back c) = test_iterations_of c (clients T)
              \<and> count_list tr (Forward_back c) = test_iterations_of c (clients T)"
    by blast
  with a b show ?thesis by blast
qed

text \<open>
  C7. A testing epoch that returns leaves every server copy as it was, and with it the
  parameters of \<^verbatim>\<open>center_front\<close> and \<^verbatim>\<open>center_back\<close>, and it leaves the \<^verbatim>\<open>front\<close> and
  \<^verbatim>\<open>back\<close> parameters of every participant as they were. What it adds to the trace is
  exactly this: for every participant in turn, and for each of its test batches, the
  forward calls of \<^verbatim>\<open>front\<close>, \<^verbatim>\<open>center_front\<close>, \<^verbatim>\<open>center_back\<close> and \<^verbatim>\<open>back\<close> in this
  order, then the test loss and the test score; and at the end the main metric of every
  participant. The four segments run in the order in which a training iteration runs
  them. No backward pass, no optimizer step or gradient clear and no weight fusion is in
  the trace, so the optimizers are never touched.
\<close>

theorem test_epoch_is_evaluative:
  assumes "test_one_epoch E epoch T = Inr T'"
  shows "sc_clients T' = sc_clients T
       \<and> map (\<lambda>(c, cl). (c, front_model cl, back_model cl)) (clients T')
           = map (\<lambda>(c, cl). (c, front_model cl, back_model cl)) (clients T)
       \<and> calls T' = calls T @ [Test_one_epoch epoch]
           @ concat (map (\<lambda>(c, cl). concat (replicate (test_DataLoader_len cl)
               [Forward_front_key_value_test c (kv_test_flag cl),
                Forward_center_front_test c (sc_kv_test_flag (the (map_of (sc_clients T) c))),
                Forward_center_back c, Forward_back c, Calculate_loss c Test,
                Calculate_test_metric c])) (clients T))
           @ map (\<lambda>(c, cl). Get_main_metric c Test) (clients T)
       \<and> List.map_filter segment_call (test_iteration_calls c a b)
           = [Front, Center_front, Center_back, Back]
       \<and> List.map_filter segment_call (train_iteration_calls c a' b')
           = [Front, Center_front, Center_back, Back]
       \<and> (\<exists>tr. calls T' = calls T @ tr \<and> list_all evaluation_call tr
              \<and> count_list tr (Forward_center_back c) = test_iterations_of c (clients T)
              \<and> count_list tr (Forward_back c) = test_iterations_of c (clients T))"
  using test_epoch_frame [OF assms, of c] test_one_epoch_trace [OF assms]
    forward_sequences (1) [of c a b] forward_sequences (2) [of c a' b']
  by simp

theorem test_epoch_is_evaluative_witness:
  "test_one_epoch small_env 0 (small_trainer False)
     = Inr (projr (test_one_epoch small_env 0 (small_trainer False)))
   \<and> sc_clients (projr (test_one_epoch small_env 0 (small_trainer False)))
       = sc_clients (small_trainer False)
   \<and> map (\<lambda>(c, cl). (c, front_model cl, back_model cl))
        (clients (projr (test_one_epoch small_env 0 (small_trainer False))))
       = map (\<lambda>(c, cl). (c, front_model cl, back_model cl)) (clients (small_trainer False))"
  using test_epoch_is_evaluative [OF small_test_returns, where c = "''abcd''"]
    small_test_returns
  by simp





section \<open>Populating the key-value store\<close>













section \<open>The phases of a run\<close>












lemma freeze_all_result:
  "freeze_all epoch scs = Inr (scs', tr) \<Longrightarrow>
     scs' = map (\<lambda>(c, sc). (c, sc\<lparr>center_back_frozen := True\<rparr>)) scs
   \<and> tr = map (\<lambda>(c, sc). Freeze c epoch) scs"
proof (induction scs arbitrary: scs' tr)
  case Nil
  then show ?case by simp
next
  case (Cons p scs)
  obtain c sc where p: "p = (c, sc)" by (cases p)
  from Cons.prems p obtain rest' tr' where
    r: "freeze_all epoch scs = Inr (rest', tr')"
    and c: "scs' = (c, sc\<lparr>center_back_frozen := True\<rparr>) # rest'"
    and t: "tr = Freeze c epoch # tr'"
    by (auto split: option.splits sum.splits)
  from Cons.IH [OF r] c t p show ?case by simp
qed













lemma load_models_other:
  "load_models dir ids cls scs = Inr (cls', scs') \<Longrightarrow> c \<notin> set ids \<Longrightarrow>
     map_of cls' c = map_of cls c \<and> map_of scs' c = map_of scs c"
proof (induction ids arbitrary: cls scs)
  case Nil
  then show ?case by simp
next
  case (Cons a ids)
  from Cons.prems(1) obtain cl sc fr cf cb bk where
    r: "load_models dir ids
          (AList.update a (cl\<lparr>front_model := Some fr, back_model := Some bk\<rparr>) cls)
          (AList.update a (sc\<lparr>center_front_model := Some cf, center_back_model := Some cb,
              center_back_frozen := False\<rparr>) scs) = Inr (cls', scs')"
    by (auto split: option.splits)
  from Cons.prems(2) have "c \<notin> set ids" "a \<noteq> c" by auto
  with Cons.IH [OF r] show ?case by (simp add: update_conv')
qed

lemma load_models_loaded:
  "load_models dir ids cls scs = Inr (cls', scs') \<Longrightarrow> c \<in> set ids \<Longrightarrow>
     \<exists>cl sc fr cf cb bk. map_of cls' c = Some cl \<and> map_of scs' c = Some sc
       \<and> dir (c, Front) = Some fr \<and> dir (c, Center_front) = Some cf
       \<and> dir (c, Center_back) = Some cb \<and> dir (c, Back) = Some bk
       \<and> front_model cl = Some fr \<and> back_model cl = Some bk
       \<and> center_front_model sc = Some cf \<and> center_back_model sc = Some cb"
proof (induction ids arbitrary: cls scs)
  case Nil
  then show ?case by simp
next
  case (Cons a ids)
  from Cons.prems(1) obtain cl sc fr cf cb bk where
    d: "dir (a, Front) = Some fr" "dir (a, Center_front) = Some cf"
       "dir (a, Center_back) = Some cb" "dir (a, Back) = Some bk"
    and r: "load_models dir ids
          (AList.update a (cl\<lparr>front_model := Some fr, back_model := Some bk\<rparr>) cls)
          (AList.update a (sc\<lparr>center_front_model := Some cf, center_back_model := Some cb,
              center_back_frozen := False\<rparr>) scs) = Inr (cls', scs')"
    by (auto split: option.splits)
  show ?case
  proof (cases "c \<in> set ids")
    case True
    from Cons.IH [OF r True] show ?thesis .
  next
    case False
    with Cons.prems(2) have ca: "c = a" by simp
    from load_models_other [OF r False] ca d show ?thesis
      by (simp add: update_conv')
  qed
qed

lemma map_of_frozen:
  "map_of (map (\<lambda>(c, sc). (c, sc\<lparr>center_back_frozen := True\<rparr>)) scs) c
     = map_option (\<lambda>sc. sc\<lparr>center_back_frozen := True\<rparr>) (map_of scs c)"
  by (induction scs) auto

lemma freeze_calls: "list_all freeze_call (map (\<lambda>(c, sc). Freeze c epoch) scs)"
  by (induction scs) (auto simp: freeze_call_def)

text \<open>
  C10. At the epoch at which personalization starts, and when the transition returns, the
  trainer is in personalization mode; the trace gains the loading of the saved models,
  then the entry of \<^verbatim>\<open>personalize\<close>, and only after these the calls of \<^verbatim>\<open>freeze\<close>; and
  for every participant id the four segment models are the states read from the save
  directory, the loaded \<^verbatim>\<open>center_back\<close> being the one that is frozen.
\<close>

theorem personalization_loads_saved_models:
  assumes "args_personalize (args T)" and "int epoch = p_epoch (args T)"
    and "enter_personalization epoch T = Inr T'"
  shows "personalization_mode T'
       \<and> (\<exists>tr. calls T' = calls T @ [Load_best_models, Personalize epoch] @ tr
              \<and> list_all freeze_call tr)
       \<and> (\<forall>c \<in> set (client_ids T).
            \<exists>cl sc fr cf cb bk. map_of (clients T') c = Some cl \<and> map_of (sc_clients T') c = Some sc
              \<and> save_dir T (c, Front) = Some fr \<and> save_dir T (c, Center_front) = Some cf
              \<and> save_dir T (c, Center_back) = Some cb \<and> save_dir T (c, Back) = Some bk
              \<and> front_model cl = Some fr \<and> back_model cl = Some bk
              \<and> center_front_model sc = Some cf \<and> center_back_model sc = Some cb
              \<and> center_back_frozen sc)"
proof -
  from assms obtain cls scs scs' tr where
    l: "load_models (save_dir T) (client_ids T) (clients T) (sc_clients T) = Inr (cls, scs)"
    and f: "freeze_all epoch scs = Inr (scs', tr)"
    and T': "T' = T\<lparr>personalization_mode := True, clients := cls, sc_clients := scs',
              calls := calls T @ [Load_best_models] @ [Personalize epoch] @ tr\<rparr>"
    by (auto simp: enter_personalization_def load_best_models_def personalize_def
        split: sum.splits prod.splits)
  note fr = freeze_all_result [OF f]
  have a: "personalization_mode T'" by (simp add: T')
  have b: "\<exists>tr. calls T' = calls T @ [Load_best_models, Personalize epoch] @ tr
              \<and> list_all freeze_call tr"
    using fr by (auto simp: T' freeze_calls)
  have c: "\<exists>cl sc fr cf cb bk. map_of (clients T') c = Some cl \<and> map_of (sc_clients T') c = Some sc
              \<and> save_dir T (c, Front) = Some fr \<and> save_dir T (c, Center_front) = Some cf
              \<and> save_dir T (c, Center_back) = Some cb \<and> save_dir T (c, Back) = Some bk
              \<and> front_model cl = Some fr \<and> back_model cl = Some bk
              \<and> center_front_model sc = Some cf \<and> center_back_model sc = Some cb
              \<and> center_back_frozen sc" if "c \<in> set (client_ids T)" for c
  proof -
    from load_models_loaded [OF l that] obtain cl sc fr' cf cb bk where
      h: "map_of cls c = Some cl" "map_of scs c = Some sc"
        "save_dir T (c, Front) = Some fr'" "save_dir T (c, Center_front) = Some cf"
        "save_dir T (c, Center_back) = Some cb" "save_dir T (c, Back) = Some bk"
        "front_model cl = Some fr'" "back_model cl = Some bk"
        "center_front_model sc = Some cf" "center_back_model sc = Some cb"
      by blast
    have "map_of (sc_clients T') c = Some (sc\<lparr>center_back_frozen := True\<rparr>)"
      using fr h(2) by (simp add: T' map_of_frozen)
    with h show ?thesis by (simp add: T')
  qed
  from a b c show ?thesis by blast
qed

lemma saved_transition_returns:
  "enter_personalization 1 saved_trainer = Inr (projr (enter_personalization 1 saved_trainer))"
proof -
  have "\<not> isl (enter_personalization 1 saved_trainer)" by code_simp
  then show ?thesis by simp
qed

theorem personalization_loads_saved_models_witness:
  "args_personalize (args saved_trainer) \<and> int 1 = p_epoch (args saved_trainer)
   \<and> enter_personalization 1 saved_trainer
       = Inr (projr (enter_personalization 1 saved_trainer))
   \<and> personalization_mode (projr (enter_personalization 1 saved_trainer))
   \<and> (\<exists>tr. calls (projr (enter_personalization 1 saved_trainer))
            = calls saved_trainer @ [Load_best_models, Personalize 1] @ tr
          \<and> list_all freeze_call tr)"
proof -
  have a: "args_personalize (args saved_trainer)"
    and b: "int 1 = p_epoch (args saved_trainer)"
    by (simp_all add: saved_trainer_def)
  from personalization_loads_saved_models [OF a b saved_transition_returns]
    a b saved_transition_returns
  show ?thesis by blast
qed

end
